theory Spec2Isabelle
  imports Main "HOL-Library.FSet"
begin

section \<open>Mod records (src/mod_manager.py)\<close>

text \<open>
  A mod is a Python dict with the keys \<open>id\<close>, \<open>url\<close>, \<open>info\<close> and \<open>is_dependency\<close>;
  \<open>info\<close> is a dict whose keys may be absent, so each of its fields is an option
  (\<open>None\<close>: the key is absent). \<open>_load_mods\<close> normalises every loaded record so that
  \<open>info\<close> and \<open>is_dependency\<close> are present, and \<open>add_mod_by_id\<close> creates records
  with all four keys, so these two are plain fields. The key \<open>id\<close> is the field
  \<open>mod_id\<close> (\<open>id\<close> is the identity function of HOL).
\<close>

record mod_info =
  title :: "string option"
  app_id :: "int option"
  dependencies :: "string list option"

record mod_record =
  mod_id :: string
  url :: string
  info :: mod_info
  is_dependency :: bool

text \<open>\<^verbatim>\<open>mod.get('info', {}).get('dependencies', [])\<close>\<close>

definition mod_dependencies :: "mod_record \<Rightarrow> string list" where
  "mod_dependencies m = (case dependencies (info m) of None \<Rightarrow> [] | Some ds \<Rightarrow> ds)"

text \<open>\<^verbatim>\<open>next((m for m in self.mods if m['id'] == mod_id), None)\<close>: the first record with
  the id, in list order.\<close>

definition find_mod :: "string \<Rightarrow> mod_record list \<Rightarrow> mod_record option" where
  "find_mod i mods = List.find (\<lambda>m. mod_id m = i) mods"

subsection \<open>add_mod_by_id, add_mod_by_url\<close>

text \<open>The record \<open>add_mod_by_id\<close> appends (lines 72-74).\<close>

definition placeholder :: "string \<Rightarrow> bool \<Rightarrow> mod_record" where
  "placeholder i dep =
     \<lparr> mod_id = i,
       url = ''https://steamcommunity.com/workshop/filedetails/?id='' @ i,
       info = \<lparr> title = Some (if \<not> dep then ''Fetching info for '' @ i @ ''...''
                                 else ''Fetching dependency '' @ i @ ''...''),
                app_id = None, dependencies = None \<rparr>,
       is_dependency = dep \<rparr>"

text \<open>\<^verbatim>\<open>existing_mod["is_dependency"] = False\<close>: \<open>existing_mod\<close> is the first record with
  the id, and the assignment changes that record in place.\<close>

fun clear_dependency_flag :: "string \<Rightarrow> mod_record list \<Rightarrow> mod_record list" where
  "clear_dependency_flag i [] = []"
| "clear_dependency_flag i (m # ms) =
     (if mod_id m = i then m\<lparr>is_dependency := False\<rparr> # ms
      else m # clear_dependency_flag i ms)"

text \<open>
  \<open>add_mod_by_id\<close> returns a bool and updates \<open>self.mods\<close>; the model returns the bool
  and the new list. \<^verbatim>\<open>if existing_mod:\<close> tests a dict that holds at least the key
  \<open>id\<close>, so it is true exactly when a record was found.
\<close>

definition add_mod_by_id :: "string \<Rightarrow> bool \<Rightarrow> mod_record list \<Rightarrow> bool \<times> mod_record list" where
  "add_mod_by_id i dep mods =
     (case find_mod i mods of
        Some existing_mod \<Rightarrow>
          if is_dependency existing_mod \<and> \<not> dep then (True, clear_dependency_flag i mods)
          else (False, mods)
      | None \<Rightarrow> (True, mods @ [placeholder i dep]))"

subsection \<open>Regular expressions of the sources\<close>

text \<open>
  The patterns of the sources are searched with \<open>re.search\<close>: the leftmost position
  where the pattern matches. Strings are lists of 8-bit characters; on these, \<open>\d\<close>
  is an ASCII digit and case-insensitive matching of an ASCII letter is ASCII case
  folding.
\<close>

definition is_digit :: "char \<Rightarrow> bool" where
  "is_digit c = (c \<in> set ''0123456789'')"

definition ascii_lower :: "char \<Rightarrow> char" where
  "ascii_lower c =
     (case map_of (zip ''ABCDEFGHIJKLMNOPQRSTUVWXYZ'' ''abcdefghijklmnopqrstuvwxyz'') c of
        Some l \<Rightarrow> l | None \<Rightarrow> c)"

text \<open>A literal at the start of the text: the rest of the text behind it.\<close>

fun match_literal :: "string \<Rightarrow> string \<Rightarrow> string option" where
  "match_literal [] s = Some s"
| "match_literal (p # ps) [] = None"
| "match_literal (p # ps) (c # cs) = (if p = c then match_literal ps cs else None)"

text \<open>The same under \<open>re.IGNORECASE\<close>, for a literal written in lower case.\<close>

fun match_literal_ci :: "string \<Rightarrow> string \<Rightarrow> string option" where
  "match_literal_ci [] s = Some s"
| "match_literal_ci (p # ps) [] = None"
| "match_literal_ci (p # ps) (c # cs) =
     (if p = ascii_lower c then match_literal_ci ps cs else None)"

text \<open>\<open>(\d+)\<close> at the start of the text: the longest run of digits, at least one.\<close>

definition match_digits :: "string \<Rightarrow> string option" where
  "match_digits s = (case takeWhile is_digit s of [] \<Rightarrow> None | ds \<Rightarrow> Some ds)"

text \<open>\<open>re.search\<close>: the first start position, from the left, where the matcher
  succeeds (the empty rest included).\<close>

fun re_search :: "(string \<Rightarrow> 'a option) \<Rightarrow> string \<Rightarrow> 'a option" where
  "re_search p [] = p []"
| "re_search p (c # cs) = (case p (c # cs) of Some r \<Rightarrow> Some r | None \<Rightarrow> re_search p cs)"

text \<open>
  \<open>.*id=(\d+)\<close> at the start of the text: \<open>.*\<close> is greedy and does not cross a
  newline, so the group is the digits behind the last \<open>id=\<close> of the line that has a
  digit behind it.
\<close>

fun match_any_then_id :: "string \<Rightarrow> string option" where
  "match_any_then_id [] = None"
| "match_any_then_id (c # cs) =
     (let here = (case match_literal ''id='' (c # cs) of
                    None \<Rightarrow> None | Some r \<Rightarrow> match_digits r)
      in if c = CHR 0x0A then here
         else (case match_any_then_id cs of Some g \<Rightarrow> Some g | None \<Rightarrow> here))"

text \<open>\<^verbatim>\<open>steamcommunity\.com/(?:sharedfiles|workshop)/filedetails/\?.*id=(\d+)\<close> at the
  start of the text.\<close>

definition match_workshop_url :: "string \<Rightarrow> string option" where
  "match_workshop_url s =
     (case match_literal ''steamcommunity.com/'' s of
        None \<Rightarrow> None
      | Some r1 \<Rightarrow>
          (case (case match_literal ''sharedfiles'' r1 of
                   Some r \<Rightarrow> Some r | None \<Rightarrow> match_literal ''workshop'' r1) of
             None \<Rightarrow> None
           | Some r2 \<Rightarrow>
               (case match_literal ''/filedetails/?'' r2 of
                  None \<Rightarrow> None
                | Some r3 \<Rightarrow> match_any_then_id r3)))"

text \<open>\<open>add_mod_by_url\<close>: the id of the url, or \<open>None\<close>; the repository changes only
  through \<open>add_mod_by_id\<close>, whose bool is dropped.\<close>

definition add_mod_by_url :: "string \<Rightarrow> mod_record list \<Rightarrow> string option \<times> mod_record list" where
  "add_mod_by_url u mods =
     (case re_search match_workshop_url u of
        None \<Rightarrow> (None, mods)
      | Some i \<Rightarrow> (Some i, snd (add_mod_by_id i False mods)))"

subsection \<open>get_all_dependencies_efficient\<close>

text \<open>\<^verbatim>\<open>{mod['id']: mod for mod in self.mods}\<close>: a later record replaces an earlier one
  with the same id.\<close>

definition mods_dict :: "mod_record list \<Rightarrow> string \<Rightarrow> mod_record option" where
  "mods_dict mods = map_of (rev (map (\<lambda>m. (mod_id m, m)) mods))"

text \<open>The three sets of the function; Python sets are finite.\<close>

record gade_state =
  all_dependencies :: "string fset"
  to_process :: "string fset"
  processed :: "string fset"

text \<open>The body of \<^verbatim>\<open>for dep_id in dependencies\<close> (lines 172-175).\<close>

definition gade_add_dep :: "string \<Rightarrow> gade_state \<Rightarrow> gade_state" where
  "gade_add_dep dep_id s =
     (let s1 = s\<lparr>all_dependencies := finsert dep_id (all_dependencies s)\<rparr>
      in if dep_id |\<notin>| processed s1 then s1\<lparr>to_process := finsert dep_id (to_process s1)\<rparr>
         else s1)"

text \<open>The body of the while loop behind \<^verbatim>\<open>current_id = to_process.pop()\<close> (lines
  162-175); \<open>continue\<close> leaves the state as it is.\<close>

definition gade_body :: "(string \<Rightarrow> mod_record option) \<Rightarrow> string \<Rightarrow> gade_state \<Rightarrow> gade_state" where
  "gade_body d current_id s =
     (if current_id |\<in>| processed s then s
      else
        let s1 = s\<lparr>processed := finsert current_id (processed s)\<rparr>
        in (case d current_id of
              None \<Rightarrow> s1
            | Some m \<Rightarrow> fold gade_add_dep (mod_dependencies m) s1))"

text \<open>
  \<open>set.pop()\<close> removes and returns an arbitrary element. The element each call returns
  is an input of the model: \<open>gade_while d pops s\<close> runs one iteration of the loop for each
  element of \<open>pops\<close>, in order, and is \<open>None\<close> when an element is not in \<open>to_process\<close>
  at its turn (which \<open>pop\<close> cannot return). Every behaviour of the loop is
  \<open>gade_while\<close> on some \<open>pops\<close>.
\<close>

fun gade_while :: "(string \<Rightarrow> mod_record option) \<Rightarrow> string list \<Rightarrow> gade_state \<Rightarrow> gade_state option" where
  "gade_while d [] s = Some s"
| "gade_while d (current_id # pops) s =
     (if current_id |\<in>| to_process s
      then gade_while d pops (gade_body d current_id (s\<lparr>to_process := to_process s |-| {|current_id|}\<rparr>))
      else None)"

definition gade_init :: "string fset \<Rightarrow> gade_state" where
  "gade_init mod_ids = \<lparr>all_dependencies = {||}, to_process = mod_ids, processed = {||}\<rparr>"

text \<open>The function returns when the loop finds \<open>to_process\<close> empty: \<open>Some\<close> of the
  returned set when \<open>pops\<close> is a run of the loop to its exit, \<open>None\<close> otherwise.\<close>

definition get_all_dependencies_efficient ::
  "mod_record list \<Rightarrow> string list \<Rightarrow> string fset \<Rightarrow> string fset option" where
  "get_all_dependencies_efficient mods pops mod_ids =
     (case gade_while (mods_dict mods) pops (gade_init mod_ids) of
        None \<Rightarrow> None
      | Some s \<Rightarrow> if to_process s = {||} then Some (all_dependencies s) else None)"

text \<open>The dependency relation of a repository: \<open>(a, b)\<close> when the record looked up for
  \<open>a\<close> lists \<open>b\<close>.\<close>

definition dep_rel :: "mod_record list \<Rightarrow> (string \<times> string) set" where
  "dep_rel mods = {(a, b). \<exists>m. mods_dict mods a = Some m \<and> b \<in> set (mod_dependencies m)}"

subsection \<open>build_hierarchical_list\<close>

record bhl_state =
  hierarchical_list :: "(mod_record \<times> nat) list"
  processed_mods :: "string fset"

text \<open>
  The closure \<open>add_mod_with_dependencies\<close> (lines 209-224) and its loop over the
  dependencies. \<open>hierarchical_list\<close> and \<open>processed_mods\<close> are shared by all calls (the
  state that is passed on); \<open>visited\<close> is copied for each call, so a call sees the ids
  of its own path only.

  The closure calls itself, one interpreter frame for each record of the path, and
  nothing in the sources raises the recursion limit of the interpreter or handles
  \<open>RecursionError\<close>. The first argument is the number of nested calls of the closure
  that the interpreter still allows (its recursion limit less the frames in use); a
  call made when none is left raises \<open>RecursionError\<close>, which ends the whole function:
  the result \<open>None\<close>.
\<close>

fun add_mod_with_dependencies ::
    "nat \<Rightarrow> (string \<Rightarrow> mod_record option) \<Rightarrow> mod_record \<Rightarrow> nat \<Rightarrow> string fset \<Rightarrow> bhl_state
      \<Rightarrow> bhl_state option"
  and add_dependencies ::
    "nat \<Rightarrow> (string \<Rightarrow> mod_record option) \<Rightarrow> string list \<Rightarrow> nat \<Rightarrow> string fset \<Rightarrow> bhl_state
      \<Rightarrow> bhl_state option"
where
  "add_mod_with_dependencies 0 mods_by_id m indent_level visited st = None"
| "add_mod_with_dependencies (Suc depth) mods_by_id m indent_level visited st =
     (if mod_id m |\<in>| visited \<or> mod_id m |\<in>| processed_mods st then Some st
      else add_dependencies depth mods_by_id (mod_dependencies m) (indent_level + 1)
             (finsert (mod_id m) visited)
             (st\<lparr>processed_mods := finsert (mod_id m) (processed_mods st),
                 hierarchical_list := hierarchical_list st @ [(m, indent_level)]\<rparr>))"
| "add_dependencies depth mods_by_id [] indent_level visited st = Some st"
| "add_dependencies depth mods_by_id (dep_id # deps) indent_level visited st =
     (case mods_by_id dep_id of
        Some dep_mod \<Rightarrow>
          if dep_id |\<notin>| visited
          then (case add_mod_with_dependencies depth mods_by_id dep_mod indent_level visited st of
                  None \<Rightarrow> None
                | Some st' \<Rightarrow> add_dependencies depth mods_by_id deps indent_level visited st')
          else add_dependencies depth mods_by_id deps indent_level visited st
      | None \<Rightarrow> add_dependencies depth mods_by_id deps indent_level visited st)"

text \<open>\<^verbatim>\<open>for mod in root_mods: add_mod_with_dependencies(mod)\<close> (lines 226-227).\<close>

fun add_roots :: "nat \<Rightarrow> (string \<Rightarrow> mod_record option) \<Rightarrow> mod_record list \<Rightarrow> bhl_state
      \<Rightarrow> bhl_state option" where
  "add_roots depth mods_by_id [] st = Some st"
| "add_roots depth mods_by_id (m # ms) st =
     (case add_mod_with_dependencies depth mods_by_id m 0 {||} st of
        None \<Rightarrow> None
      | Some st' \<Rightarrow> add_roots depth mods_by_id ms st')"

text \<open>\<^verbatim>\<open>for mod in self.mods: if mod['id'] not in processed_mods:
  add_mod_with_dependencies(mod)\<close> (lines 229-231).\<close>

fun add_unprocessed :: "nat \<Rightarrow> (string \<Rightarrow> mod_record option) \<Rightarrow> mod_record list \<Rightarrow> bhl_state
      \<Rightarrow> bhl_state option" where
  "add_unprocessed depth mods_by_id [] st = Some st"
| "add_unprocessed depth mods_by_id (m # ms) st =
     (if mod_id m |\<notin>| processed_mods st
      then (case add_mod_with_dependencies depth mods_by_id m 0 {||} st of
              None \<Rightarrow> None
            | Some st' \<Rightarrow> add_unprocessed depth mods_by_id ms st')
      else add_unprocessed depth mods_by_id ms st)"

text \<open>Lines 195-197: every id that some record lists as a dependency.\<close>

definition dependency_mods :: "mod_record list \<Rightarrow> string set" where
  "dependency_mods mods = set (concat (map mod_dependencies mods))"

text \<open>Lines 199-204: the records that are not dependencies, and the dependencies that
  no record lists.\<close>

definition root_mods :: "mod_record list \<Rightarrow> mod_record list" where
  "root_mods mods =
     filter (\<lambda>m. if \<not> is_dependency m then True else mod_id m \<notin> dependency_mods mods) mods"

text \<open>\<open>build_hierarchical_list\<close> (lines 186-233), for the number of nested calls the
  interpreter allows when it is called: the list, or \<open>None\<close> for \<open>RecursionError\<close>.\<close>

definition build_hierarchical_list ::
  "nat \<Rightarrow> mod_record list \<Rightarrow> (mod_record \<times> nat) list option" where
  "build_hierarchical_list frames mods =
     (case add_roots frames (mods_dict mods) (root_mods mods)
             \<lparr>hierarchical_list = [], processed_mods = {||}\<rparr> of
        None \<Rightarrow> None
      | Some st \<Rightarrow>
          (case add_unprocessed frames (mods_dict mods) mods st of
             None \<Rightarrow> None
           | Some st' \<Rightarrow> Some (hierarchical_list st')))"

subsection \<open>Notions for the properties of get_all_dependencies_efficient\<close>

text \<open>The dependencies of the record looked up for an id; none when there is no record.\<close>

definition deps_of :: "(string \<Rightarrow> mod_record option) \<Rightarrow> string \<Rightarrow> string list" where
  "deps_of d i = (case d i of None \<Rightarrow> [] | Some m \<Rightarrow> mod_dependencies m)"

text \<open>What the loop has left to do: the ids waiting in \<open>to_process\<close>, and the
  dependencies that the records not yet processed can still add to it.\<close>

definition gade_potential :: "(string \<Rightarrow> mod_record option) \<Rightarrow> gade_state \<Rightarrow> nat" where
  "gade_potential d s =
     card (fset (to_process s)) + (\<Sum>i \<in> dom d - fset (processed s). length (deps_of d i))"

text \<open>The invariant of the loop, for the seeds \<open>mod_ids\<close>: everything collected is
  reachable from a seed; every seed and every collected id is processed or waiting; the
  dependencies of every processed id are collected.\<close>

definition gade_inv :: "mod_record list \<Rightarrow> string fset \<Rightarrow> gade_state \<Rightarrow> bool" where
  "gade_inv mods mod_ids s \<longleftrightarrow>
     fset (all_dependencies s) \<subseteq> (dep_rel mods)\<^sup>+ `` fset mod_ids
     \<and> fset (to_process s) \<subseteq> (dep_rel mods)\<^sup>* `` fset mod_ids
     \<and> fset (processed s) \<subseteq> (dep_rel mods)\<^sup>* `` fset mod_ids
     \<and> fset mod_ids \<subseteq> fset (processed s) \<union> fset (to_process s)
     \<and> dep_rel mods `` fset (processed s) \<subseteq> fset (all_dependencies s)
     \<and> fset (all_dependencies s) \<subseteq> fset (processed s) \<union> fset (to_process s)"

text \<open>A repository with a cycle (1 requires 2, 2 requires 1) and a dependency on an id
  that has no record (9).\<close>

definition example_cycle :: "mod_record list" where
  "example_cycle =
     [\<lparr>mod_id = ''1'', url = ''u1'',
        info = \<lparr>title = None, app_id = None, dependencies = Some [''2'', ''9'']\<rparr>,
        is_dependency = False\<rparr>,
      \<lparr>mod_id = ''2'', url = ''u2'',
        info = \<lparr>title = None, app_id = None, dependencies = Some [''1'']\<rparr>,
        is_dependency = True\<rparr>]"

subsection \<open>Notions for the properties of build_hierarchical_list\<close>

text \<open>A dict whose keys are the ids of its records, as \<open>mods_by_id\<close> is.\<close>

definition dict_keyed :: "(string \<Rightarrow> mod_record option) \<Rightarrow> bool" where
  "dict_keyed d \<longleftrightarrow> (\<forall>i m. d i = Some m \<longrightarrow> mod_id m = i)"

text \<open>The invariant of the walk: the ids emitted so far are distinct, they are the ids
  in \<open>processed_mods\<close>, and the records emitted are records of the repository.\<close>

definition bhl_inv :: "mod_record set \<Rightarrow> bhl_state \<Rightarrow> bool" where
  "bhl_inv M st \<longleftrightarrow>
     distinct (map (mod_id \<circ> fst) (hierarchical_list st))
     \<and> set (map (mod_id \<circ> fst) (hierarchical_list st)) = fset (processed_mods st)
     \<and> fst ` set (hierarchical_list st) \<subseteq> M"

text \<open>A diamond: A requires B and C, and both B and C require D.\<close>

definition example_diamond :: "mod_record list" where
  "example_diamond =
     [\<lparr>mod_id = ''A'', url = ''uA'',
        info = \<lparr>title = None, app_id = None, dependencies = Some [''B'', ''C'']\<rparr>,
        is_dependency = False\<rparr>,
      \<lparr>mod_id = ''B'', url = ''uB'',
        info = \<lparr>title = None, app_id = None, dependencies = Some [''D'']\<rparr>,
        is_dependency = True\<rparr>,
      \<lparr>mod_id = ''C'', url = ''uC'',
        info = \<lparr>title = None, app_id = None, dependencies = Some [''D'']\<rparr>,
        is_dependency = True\<rparr>,
      \<lparr>mod_id = ''D'', url = ''uD'',
        info = \<lparr>title = None, app_id = None, dependencies = None\<rparr>,
        is_dependency = True\<rparr>]"

text \<open>
  Reading a list of records with levels as an indented outline. The stack holds, for
  each level above the next entry, the last entry of that level. An entry of level \<open>l\<close>
  needs an entry of every lower level above it and, when \<open>l > 0\<close>, must be listed as a
  dependency by the entry of level \<open>l - 1\<close> on the stack, its parent. The result is the
  stack behind the last entry, or \<open>None\<close> when the list is no such outline.
\<close>

fun outline :: "mod_record list \<Rightarrow> (mod_record \<times> nat) list \<Rightarrow> mod_record list option" where
  "outline stack [] = Some stack"
| "outline stack ((m, l) # rest) =
     (if l \<le> length stack \<and> (l = 0 \<or> mod_id m \<in> set (mod_dependencies (stack ! (l - 1))))
      then outline (take l stack @ [m]) rest
      else None)"

text \<open>A chain: A requires B, B requires C.\<close>

definition example_chain :: "mod_record list" where
  "example_chain =
     [\<lparr>mod_id = ''A'', url = ''uA'',
        info = \<lparr>title = None, app_id = None, dependencies = Some [''B'']\<rparr>,
        is_dependency = False\<rparr>,
      \<lparr>mod_id = ''B'', url = ''uB'',
        info = \<lparr>title = None, app_id = None, dependencies = Some [''C'']\<rparr>,
        is_dependency = True\<rparr>,
      \<lparr>mod_id = ''C'', url = ''uC'',
        info = \<lparr>title = None, app_id = None, dependencies = None\<rparr>,
        is_dependency = True\<rparr>]"

text \<open>What a call appends is an outline below the stack it is called on.\<close>

definition appends_outline ::
  "bhl_state \<Rightarrow> bhl_state \<Rightarrow> nat \<Rightarrow> (mod_record list \<Rightarrow> bool) \<Rightarrow> bool" where
  "appends_outline st st' lvl ok \<longleftrightarrow>
     (\<exists>ys. hierarchical_list st' = hierarchical_list st @ ys
        \<and> (\<forall>stk. lvl \<le> length stk \<and> ok stk \<longrightarrow>
              (\<exists>stk'. outline stk ys = Some stk' \<and> take lvl stk' = take lvl stk
                  \<and> lvl \<le> length stk')))"

text \<open>The invariant of the two loops of the function.\<close>

definition loop_inv :: "mod_record list \<Rightarrow> bhl_state \<Rightarrow> bool" where
  "loop_inv mods st \<longleftrightarrow>
     bhl_inv (set mods) st \<and> outline [] (hierarchical_list st) \<noteq> None"

section \<open>The SteamCMD downloader (src/steamcmd_downloader.py)\<close>

subsection \<open>The patterns of the monitor\<close>

text \<open>\<^verbatim>\<open>re.compile(r'downloading item (\d+)', re.IGNORECASE).search(line)\<close>: the group of
  the leftmost match.\<close>

definition start_match :: "string \<Rightarrow> string option" where
  "start_match line =
     re_search (\<lambda>s. case match_literal_ci ''downloading item '' s of
                       None \<Rightarrow> None
                     | Some r \<Rightarrow> match_digits r) line"

text \<open>\<^verbatim>\<open>re.compile(r'success\.', re.IGNORECASE).search(line)\<close>, as a truth value.\<close>

definition is_success :: "string \<Rightarrow> bool" where
  "is_success line = (re_search (match_literal_ci ''success.'') line \<noteq> None)"

text \<open>\<^verbatim>\<open>re.compile(r'error|failed|timeout', re.IGNORECASE).search(line)\<close>, as a truth
  value.\<close>

definition is_error :: "string \<Rightarrow> bool" where
  "is_error line =
     (re_search (\<lambda>s. case match_literal_ci ''error'' s of
                        Some r \<Rightarrow> Some r
                      | None \<Rightarrow> (case match_literal_ci ''failed'' s of
                                    Some r \<Rightarrow> Some r
                                  | None \<Rightarrow> match_literal_ci ''timeout'' s)) line \<noteq> None)"

subsection \<open>Results\<close>

text \<open>An entry of \<open>failed_details\<close>: a dict with the keys \<open>id\<close>, \<open>title\<close> and \<open>reason\<close>.\<close>

record failure_detail =
  fd_id :: string
  fd_title :: string
  fd_reason :: string

text \<open>The dict that \<open>download_mods\<close> returns. The counts start at 0 and are only
  incremented or set to a length, so they are natural numbers.\<close>

record download_result =
  completed :: nat
  successful :: nat
  failed_ids :: "string list"
  failed_details :: "failure_detail list"

text \<open>\<^verbatim>\<open>mod.get('info', {}).get('title', mod['id'])\<close>\<close>

definition mod_title :: "mod_record \<Rightarrow> string" where
  "mod_title m = (case title (info m) of None \<Rightarrow> mod_id m | Some t \<Rightarrow> t)"

text \<open>The truth value of \<^verbatim>\<open>mod.get("info", {}).get("app_id")\<close>: false when the key is
  absent and when the id is 0.\<close>

definition has_app_id :: "mod_record \<Rightarrow> bool" where
  "has_app_id m = (case app_id (info m) of None \<Rightarrow> False | Some a \<Rightarrow> a \<noteq> 0)"

subsection \<open>The parse loop of _execute_steamcmd_with_monitoring\<close>

text \<open>The variables the loop updates; \<open>run_failed_ids\<close> and \<open>run_failed_details\<close> are
  the lists \<open>failed_ids\<close> and \<open>failed_details\<close> of the function (lines 113-114).\<close>

record monitor_state =
  completed_downloads :: nat
  successful_downloads :: nat
  current_mod_info :: "mod_record option"
  run_failed_ids :: "string list"
  run_failed_details :: "failure_detail list"

definition monitor_init :: monitor_state where
  "monitor_init =
     \<lparr>completed_downloads = 0, successful_downloads = 0, current_mod_info = None,
      run_failed_ids = [], run_failed_details = []\<rparr>"

text \<open>Lines 184-193: a start line for an id of the batch binds the current mod.\<close>

definition bind_start :: "(string \<Rightarrow> mod_record option) \<Rightarrow> string \<Rightarrow> monitor_state \<Rightarrow> monitor_state" where
  "bind_start mods_by_id line s =
     (case start_match line of
        None \<Rightarrow> s
      | Some downloading_id \<Rightarrow>
          (case mods_by_id downloading_id of
             None \<Rightarrow> s
           | Some m \<Rightarrow> s\<lparr>current_mod_info := Some m\<rparr>))"

text \<open>
  Lines 184-232, what the loop does with one line; the callbacks only report and are
  left out. \<^verbatim>\<open>if current_mod_info:\<close> tests a dict with the key \<open>id\<close> or \<open>None\<close>.
\<close>

definition parse_line :: "mod_record list \<Rightarrow> monitor_state \<Rightarrow> string \<Rightarrow> monitor_state" where
  "parse_line valid_mods s0 line =
     (let s = bind_start (mods_dict valid_mods) line s0
      in case current_mod_info s of
           Some m \<Rightarrow>
             if is_success line \<or> is_error line
             then
               let s1 = s\<lparr>completed_downloads := completed_downloads s + 1\<rparr>;
                   s2 = (if is_success line
                         then s1\<lparr>successful_downloads := successful_downloads s1 + 1\<rparr>
                         else s1\<lparr>run_failed_ids := run_failed_ids s1 @ [mod_id m],
                                 run_failed_details := run_failed_details s1 @
                                   [\<lparr>fd_id = mod_id m, fd_title = mod_title m,
                                     fd_reason = ''Download failed''\<rparr>]\<rparr>)
               in s2\<lparr>current_mod_info := None\<rparr>
             else s
         | None \<Rightarrow>
             if is_success line \<or> is_error line
             then
               if completed_downloads s < length valid_mods
               then s\<lparr>completed_downloads := completed_downloads s + 1,
                      successful_downloads := successful_downloads s + 1\<rparr>
               else s
             else s)"

subsection \<open>What the process and the clock decide\<close>

text \<open>How the polling loop ended: the process had exited, a stop was requested, or
  the idle timeout fired.\<close>

datatype loop_exit = ProcessExited | StopRequested | IdleTimeout

text \<open>
  One call of \<open>_execute_steamcmd_with_monitoring\<close>, as far as its result depends on
  it. The reader thread, the polling and the clock decide which lines the parse loop
  handles before the loop ends; the lines read later are only logged (lines 254-258).
  \<^item> \<open>Returned how lines rc\<close>: the loop handled \<open>lines\<close>, ended as \<open>how\<close> says, and the
    process gave the return code \<open>rc\<close>.
  \<^item> \<open>Raised lines\<close>: an exception was raised inside the \<open>try\<close> block (by
    \<open>subprocess.Popen\<close> with no line handled, or later) when the loop had handled
    \<open>lines\<close>.
  \<^item> \<open>Escaped\<close>: an exception left the function (raised by a callback in its handler).
\<close>

datatype run_outcome = Returned loop_exit "string list" int | Raised "string list" | Escaped

text \<open>Lines 271-280: the count is raised to the size of the batch, never lowered.\<close>

definition adjust_completion :: "mod_record list \<Rightarrow> monitor_state \<Rightarrow> monitor_state" where
  "adjust_completion valid_mods s =
     (if completed_downloads s < length valid_mods
      then s\<lparr>successful_downloads :=
                 successful_downloads s + (length valid_mods - completed_downloads s),
             completed_downloads := length valid_mods\<rparr>
      else s)"

text \<open>The result of the function, or \<open>None\<close> when an exception leaves it.\<close>

definition execute_steamcmd_with_monitoring ::
  "mod_record list \<Rightarrow> run_outcome \<Rightarrow> download_result option" where
  "execute_steamcmd_with_monitoring valid_mods outcome =
     (case outcome of
        Returned how lines return_code \<Rightarrow>
          (let s = adjust_completion valid_mods (foldl (parse_line valid_mods) monitor_init lines)
           in Some \<lparr>completed = completed_downloads s, successful = successful_downloads s,
                    failed_ids = run_failed_ids s, failed_details = run_failed_details s\<rparr>)
      | Raised lines \<Rightarrow>
          (let s = foldl (parse_line valid_mods) monitor_init lines
           in Some \<lparr>completed = 0, successful = 0,
                    failed_ids = run_failed_ids s, failed_details = run_failed_details s\<rparr>)
      | Escaped \<Rightarrow> None)"

subsection \<open>download_mods\<close>

record download_env =
  steamcmd_available :: bool
  run :: run_outcome

text \<open>
  \<open>download_mods\<close> (lines 32-108). \<open>steamcmd_available\<close> is the answer of
  \<open>is_steamcmd_available\<close>, \<open>run\<close> the outcome of the one call of
  \<open>_execute_steamcmd_with_monitoring\<close>. The two handlers (lines 95-108) return the same
  counts and lists; their callbacks are taken not to raise.
\<close>

definition download_mods :: "download_env \<Rightarrow> mod_record list \<Rightarrow> download_result" where
  "download_mods env mods =
     (if mods = []
      then \<lparr>completed = 0, successful = 0, failed_ids = [], failed_details = []\<rparr>
      else if \<not> steamcmd_available env
      then \<lparr>completed = 0, successful = 0, failed_ids = [], failed_details = []\<rparr>
      else
        let valid_mods = filter has_app_id mods;
            skipped = filter (\<lambda>m. \<not> has_app_id m) mods;
            failed_ids0 = map mod_id skipped;
            failed_details0 =
              map (\<lambda>m. \<lparr>fd_id = mod_id m, fd_title = mod_title m,
                         fd_reason = ''No App ID found''\<rparr>) skipped
        in if valid_mods = []
           then \<lparr>completed = length failed_ids0, successful = 0,
                  failed_ids = failed_ids0, failed_details = failed_details0\<rparr>
           else
             (case execute_steamcmd_with_monitoring valid_mods (run env) of
                Some result \<Rightarrow>
                  result\<lparr>failed_ids := failed_ids result @ failed_ids0,
                         failed_details := failed_details result @ failed_details0,
                         completed := completed result + length failed_ids0\<rparr>
              | None \<Rightarrow>
                  \<lparr>completed = 0, successful = 0,
                   failed_ids = failed_ids0, failed_details = failed_details0\<rparr>))"


text \<open>A mod with the id 123 and a resolved app id.\<close>

definition example_mod :: mod_record where
  "example_mod =
     \<lparr>mod_id = ''123'', url = ''https://steamcommunity.com/workshop/filedetails/?id=123'',
      info = \<lparr>title = Some ''Some mod'', app_id = Some 294100, dependencies = Some []\<rparr>,
      is_dependency = False\<rparr>"

section \<open>The metadata resolver (src/steam_api.py)\<close>

subsection \<open>JSON values and Python exceptions\<close>

text \<open>
  What \<open>response.json()\<close> returns: \<open>None\<close>, a bool, a number, a string, a list, or a
  dict with string keys (an association list, each key once). The numbers of the Steam
  API are integers.
\<close>

datatype json =
    JNull
  | JBool bool
  | JNum int
  | JStr string
  | JArr "json list"
  | JObj "(string \<times> json) list"

text \<open>
  The exceptions as \<open>fetch_mod_info\<close> tells them apart, each with its message
  (\<open>str(e)\<close>): \<open>requests.exceptions.RequestException\<close> and its subclasses, bs4's
  \<open>FeatureNotFound\<close>, and every other subclass of \<open>Exception\<close> (\<open>AttributeError\<close>,
  \<open>KeyError\<close>, \<open>TypeError\<close>, ...). \<open>KeyboardInterrupt\<close> and \<open>SystemExit\<close> are not
  subclasses of \<open>Exception\<close> and are not modelled.
\<close>

datatype py_exn = RequestException string | FeatureNotFound string | OtherException string

text \<open>A step that may raise, then the rest: the exception goes through.\<close>

definition raise_or :: "py_exn + 'a \<Rightarrow> ('a \<Rightarrow> py_exn + 'b) \<Rightarrow> py_exn + 'b" where
  "raise_or x f = (case x of Inl e \<Rightarrow> Inl e | Inr v \<Rightarrow> f v)"

text \<open>The truth value of a JSON value in an \<open>if\<close>.\<close>

fun truthy :: "json \<Rightarrow> bool" where
  "truthy JNull = False"
| "truthy (JBool b) = b"
| "truthy (JNum n) = (n \<noteq> 0)"
| "truthy (JStr s) = (s \<noteq> [])"
| "truthy (JArr xs) = (xs \<noteq> [])"
| "truthy (JObj kvs) = (kvs \<noteq> [])"

text \<open>The name of the type of a value, as the interpreter prints it in its messages, and
  a text between single quotes.\<close>

fun py_type_name :: "json \<Rightarrow> string" where
  "py_type_name JNull = ''NoneType''"
| "py_type_name (JBool b) = ''bool''"
| "py_type_name (JNum n) = ''int''"
| "py_type_name (JStr s) = ''str''"
| "py_type_name (JArr xs) = ''list''"
| "py_type_name (JObj kvs) = ''dict''"

definition quoted :: "string \<Rightarrow> string" where
  "quoted s = [CHR 0x27] @ s @ [CHR 0x27]"

text \<open>\<open>d.get(key, default)\<close> on a dict.\<close>

definition dict_get :: "(string \<times> json) list \<Rightarrow> string \<Rightarrow> json \<Rightarrow> json" where
  "dict_get kvs k d = (case map_of kvs k of Some v \<Rightarrow> v | None \<Rightarrow> d)"

text \<open>\<open>x.get(key, default)\<close>: only a dict has \<open>get\<close>; on another value it is an
  \<open>AttributeError\<close>, whose text names the type:
  \<^verbatim>\<open>'list' object has no attribute 'get'\<close>.\<close>

fun py_get :: "json \<Rightarrow> string \<Rightarrow> json \<Rightarrow> py_exn + json" where
  "py_get (JObj kvs) k d = Inr (dict_get kvs k d)"
| "py_get x k d =
     Inl (OtherException (quoted (py_type_name x) @ '' object has no attribute '' @ quoted ''get''))"

text \<open>
  \<open>x[key]\<close> for a string key (one of the two literals of line 25, which \<open>repr\<close> prints
  between single quotes). A dict without the key raises \<open>KeyError\<close>, whose text is the
  \<open>repr\<close> of the key; a list and a string want an integer; the other values cannot be
  subscripted. (The text for a string is that of CPython 3.11 and later.)
\<close>

fun py_getitem :: "json \<Rightarrow> string \<Rightarrow> py_exn + json" where
  "py_getitem (JObj kvs) k =
     (case map_of kvs k of Some v \<Rightarrow> Inr v | None \<Rightarrow> Inl (OtherException (quoted k)))"
| "py_getitem (JArr xs) k =
     Inl (OtherException ''list indices must be integers or slices, not str'')"
| "py_getitem (JStr s) k =
     Inl (OtherException (''string indices must be integers, not '' @ quoted ''str''))"
| "py_getitem x k =
     Inl (OtherException (quoted (py_type_name x) @ '' object is not subscriptable''))"

text \<open>\<open>x[0]\<close>: the first element of a list, the first character of a string; a dict
  with string keys has no key 0 (\<open>KeyError\<close>, with the text \<open>0\<close>); the other values
  cannot be subscripted.\<close>

fun py_index0 :: "json \<Rightarrow> py_exn + json" where
  "py_index0 (JArr (x # xs)) = Inr x"
| "py_index0 (JArr []) = Inl (OtherException ''list index out of range'')"
| "py_index0 (JStr (c # cs)) = Inr (JStr [c])"
| "py_index0 (JStr []) = Inl (OtherException ''string index out of range'')"
| "py_index0 (JObj kvs) = Inl (OtherException ''0'')"
| "py_index0 x =
     Inl (OtherException (quoted (py_type_name x) @ '' object is not subscriptable''))"

text \<open>\<open>x != 1\<close> is false for the number 1 and for \<open>True\<close>.\<close>

definition py_eq_one :: "json \<Rightarrow> bool" where
  "py_eq_one x \<longleftrightarrow> x = JNum 1 \<or> x = JBool True"

subsection \<open>The network and the libraries\<close>

text \<open>
  What the calls out of \<open>fetch_mod_info\<close> answer, each an exception or a value:
  \<^item> \<open>post_details\<close>: \<open>requests.post\<close>, \<open>raise_for_status\<close> and \<open>response.json()\<close>
    (lines 18-20), for a mod id (\<open>mod_id\<close>, here \<open>mid\<close>);
  \<^item> \<open>get_page\<close>: \<open>requests.get\<close>, \<open>raise_for_status\<close> and \<open>.text\<close> (lines 33-34), for a url;
  \<^item> \<open>soup_lxml\<close>, \<open>soup_html_parser\<close>: \<open>BeautifulSoup(text, parser)\<close> (lines 37, 42);
  \<^item> \<open>required_item_hrefs\<close>: \<open>None\<close> when the page has no \<open>div\<close> with the id
    \<open>RequiredItems\<close>, else \<open>link.get('href')\<close> for each \<open>a\<close> in it (lines 44-47);
  \<^item> \<open>html_unescape\<close>: \<open>html.unescape\<close> (line 56);
  \<^item> \<open>py_str\<close>: the text of a value in an f-string.
  \<open>print\<close> is taken not to raise.
\<close>

record 'soup web =
  post_details :: "string \<Rightarrow> py_exn + json"
  get_page :: "string \<Rightarrow> py_exn + string"
  soup_lxml :: "string \<Rightarrow> py_exn + 'soup"
  soup_html_parser :: "string \<Rightarrow> py_exn + 'soup"
  required_item_hrefs :: "'soup \<Rightarrow> py_exn + string option list option"
  html_unescape :: "json \<Rightarrow> py_exn + json"
  py_str :: "json \<Rightarrow> string"

subsection \<open>fetch_mod_info\<close>

text \<open>The dict of the three error returns (lines 23, 28, 62, 64).\<close>

definition error_info :: "string \<Rightarrow> string \<Rightarrow> (string \<times> json) list" where
  "error_info mid msg = [(''title'', JStr (''Mod '' @ mid)), (''error'', JStr msg)]"

text \<open>Lines 18-28: the details of the mod, or the dict of an early return, or an
  exception.\<close>

definition api_details ::
  "'soup web \<Rightarrow> string \<Rightarrow> py_exn + ((string \<times> json) list + json)" where
  "api_details w mid =
     raise_or (post_details w mid) (\<lambda>data.
     raise_or (py_get data ''response'' (JObj [])) (\<lambda>response.
     raise_or (py_get response ''publishedfiledetails'' JNull) (\<lambda>files.
       if \<not> truthy files
       then Inr (Inl (error_info mid ''No details in API response.''))
       else
         raise_or (py_getitem data ''response'') (\<lambda>r1.
         raise_or (py_getitem r1 ''publishedfiledetails'') (\<lambda>r2.
         raise_or (py_index0 r2) (\<lambda>details.
         raise_or (py_get details ''result'' JNull) (\<lambda>result.
           if \<not> py_eq_one result
           then Inr (Inl (error_info mid
                  (''API result not OK (result code: '' @ py_str w result @ '')'')))
           else Inr (Inr details))))))))"

text \<open>The url of the workshop page (line 31).\<close>

definition workshop_url :: "string \<Rightarrow> string" where
  "workshop_url mid = ''https://steamcommunity.com/workshop/filedetails/?id='' @ mid"

text \<open>Line 47-49: \<^verbatim>\<open>if href and (match := re.search(r"id=(\d+)", href))\<close>.\<close>

definition href_id :: "string option \<Rightarrow> string option" where
  "href_id href =
     (case href of
        None \<Rightarrow> None
      | Some h \<Rightarrow>
          if h = [] then None
          else re_search (\<lambda>s. case match_literal ''id='' s of
                                 None \<Rightarrow> None
                               | Some r \<Rightarrow> match_digits r) h)"

text \<open>The body of the inner \<open>try\<close> (lines 33-49): the ids of the required items, or the
  exception that ends it. The parser falls back to \<open>html.parser\<close> on \<open>FeatureNotFound\<close>
  only.\<close>

definition scrape_try :: "'soup web \<Rightarrow> string \<Rightarrow> py_exn + string list" where
  "scrape_try w mid =
     raise_or (get_page w (workshop_url mid))
       (\<lambda>text.
     raise_or (case soup_lxml w text of
                 Inl (FeatureNotFound msg) \<Rightarrow> soup_html_parser w text
               | r \<Rightarrow> r) (\<lambda>soup.
     raise_or (required_item_hrefs w soup) (\<lambda>required_items.
       case required_items of
         None \<Rightarrow> Inr []
       | Some hrefs \<Rightarrow> Inr (List.map_filter href_id hrefs))))"

text \<open>Lines 30-52: \<open>dependencies\<close> starts empty, and the handler of the inner \<open>try\<close>
  only prints. (The exceptions of the body come from the calls before the loop that
  appends.)\<close>

definition scrape_dependencies :: "'soup web \<Rightarrow> string \<Rightarrow> string list" where
  "scrape_dependencies w mid =
     (case scrape_try w mid of Inl scrape_error \<Rightarrow> [] | Inr found \<Rightarrow> found)"

text \<open>Lines 54-56.\<close>

definition details_description :: "'soup web \<Rightarrow> json \<Rightarrow> py_exn + json" where
  "details_description w details =
     raise_or (py_get details ''description'' (JStr [])) (\<lambda>description.
       if truthy description then html_unescape w description else Inr description)"

text \<open>The body of the outer \<open>try\<close> (lines 18-60).\<close>

definition fetch_mod_info_body :: "'soup web \<Rightarrow> string \<Rightarrow> py_exn + (string \<times> json) list" where
  "fetch_mod_info_body w mid =
     raise_or (api_details w mid) (\<lambda>r.
       case r of
         Inl early \<Rightarrow> Inr early
       | Inr details \<Rightarrow>
           (let dependencies = scrape_dependencies w mid
            in raise_or (details_description w details) (\<lambda>description.
               raise_or (py_get details ''title'' (JStr ''Unknown'')) (\<lambda>title.
               raise_or (py_get details ''consumer_app_id'' JNull) (\<lambda>app_id.
               raise_or (py_get details ''preview_url'' (JStr [])) (\<lambda>preview_url.
               raise_or (py_get details ''file_size'' (JNum 0)) (\<lambda>file_size.
                 Inr [(''title'', title), (''app_id'', app_id),
                      (''preview_url'', preview_url), (''file_size'', file_size),
                      (''description'', description),
                      (''dependencies'', JArr (map JStr dependencies))])))))))"

text \<open>\<open>fetch_mod_info\<close>: the body under the two handlers of the outer \<open>try\<close> (lines
  61-64). \<open>Inl\<close> would be an exception that reaches the caller.\<close>

definition fetch_mod_info :: "'soup web \<Rightarrow> string \<Rightarrow> py_exn + (string \<times> json) list" where
  "fetch_mod_info w mid =
     (case fetch_mod_info_body w mid of
        Inr result \<Rightarrow> Inr result
      | Inl (RequestException msg) \<Rightarrow> Inr (error_info mid (''Network error: '' @ msg))
      | Inl (FeatureNotFound msg) \<Rightarrow> Inr (error_info mid msg)
      | Inl (OtherException msg) \<Rightarrow> Inr (error_info mid msg))"

subsection \<open>Reading the answers of the network\<close>

text \<open>
  The shape of a well-formed answer of the API, read off the JSON value alone: a dict
  whose \<open>response\<close> is a dict whose \<open>publishedfiledetails\<close> is a list that starts with a
  dict, the details. Every other value is a malformed response.
\<close>

definition response_details :: "json \<Rightarrow> (string \<times> json) list option" where
  "response_details data =
     (case data of
        JObj outer \<Rightarrow>
          (case map_of outer ''response'' of
             Some (JObj resp) \<Rightarrow>
               (case map_of resp ''publishedfiledetails'' of
                  Some (JArr (JObj kvs # rest)) \<Rightarrow> Some kvs
                | _ \<Rightarrow> None)
           | _ \<Rightarrow> None)
      | _ \<Rightarrow> None)"

text \<open>
  Five webs. In \<open>example_web\<close> the API answers for the mod 123 and the page request
  times out; in \<open>example_web_down\<close> the API request itself fails; in
  \<open>example_web_malformed\<close> the API answers with a list in place of the dict; in
  \<open>example_web_refused\<close> it answers with the result code 9; in \<open>example_web_items\<close> the
  details have a description and the page is read and has four links, two of them with
  an id.
\<close>

definition example_web :: "unit web" where
  "example_web =
     \<lparr>post_details = (\<lambda>i. Inr (JObj [(''response'', JObj [(''publishedfiledetails'',
          JArr [JObj [(''result'', JNum 1), (''title'', JStr ''Some mod''),
                      (''consumer_app_id'', JNum 294100)]])])])),
      get_page = (\<lambda>u. Inl (RequestException ''Read timed out'')),
      soup_lxml = (\<lambda>t. Inr ()),
      soup_html_parser = (\<lambda>t. Inr ()),
      required_item_hrefs = (\<lambda>s. Inr None),
      html_unescape = (\<lambda>d. Inr d),
      py_str = (\<lambda>v. ''?'')\<rparr>"

definition example_web_down :: "unit web" where
  "example_web_down =
     example_web\<lparr>post_details := (\<lambda>i. Inl (RequestException ''Connection refused''))\<rparr>"

definition example_web_malformed :: "unit web" where
  "example_web_malformed = example_web\<lparr>post_details := (\<lambda>i. Inr (JArr []))\<rparr>"

definition example_web_refused :: "unit web" where
  "example_web_refused =
     example_web\<lparr>post_details := (\<lambda>i. Inr (JObj [(''response'', JObj [(''publishedfiledetails'',
          JArr [JObj [(''result'', JNum 9)]])])]))\<rparr>"

definition example_web_items :: "unit web" where
  "example_web_items =
     example_web\<lparr>post_details := (\<lambda>i. Inr (JObj [(''response'', JObj [(''publishedfiledetails'',
          JArr [JObj [(''result'', JNum 1), (''description'', JStr ''A &amp; B'')]])])])),
                 get_page := (\<lambda>u. Inr ''<html>''),
                 required_item_hrefs :=
                   (\<lambda>s. Inr (Some [Some ''https://steamcommunity.com/workshop/filedetails/?id=77'',
                                    None, Some ''https://example.org/'',
                                    Some ''?l=en&id=8''])),
                 html_unescape := (\<lambda>d. Inr (JStr ''A & B''))\<rparr>"

section \<open>Objects and references: what the read accessors return\<close>

text \<open>
  \<open>self.mods\<close> is a list object whose entries are references to dict objects, and a
  read accessor returns a reference. Where a claim depends on which objects are
  shared, the repository is modelled on a store: addresses are natural numbers, an
  object is a list of addresses or a record, and \<open>next_free\<close> is the address the
  interpreter gives to the next new object.
\<close>

datatype py_object = ListObj "nat list" | DictObj mod_record

record store =
  objects :: "nat \<Rightarrow> py_object option"
  next_free :: nat

text \<open>The \<open>ModManager\<close> object: the address of its list \<open>self.mods\<close>.\<close>

record mod_manager =
  mods_ref :: nat

definition deref_record :: "store \<Rightarrow> nat \<Rightarrow> mod_record option" where
  "deref_record h a = (case objects h a of Some (DictObj m) \<Rightarrow> Some m | _ \<Rightarrow> None)"

text \<open>The records stored in the repository, in order: what \<open>self.mods\<close> holds.\<close>

definition repo_records :: "store \<Rightarrow> mod_manager \<Rightarrow> mod_record option list" where
  "repo_records h mgr =
     (case objects h (mods_ref mgr) of
        Some (ListObj refs) \<Rightarrow> map (deref_record h) refs
      | _ \<Rightarrow> [])"

text \<open>\<open>get_all_mods\<close>: \<^verbatim>\<open>return self.mods.copy()\<close>, a new list object with the same
  entries. The result is the address of the new list and the store that holds it.\<close>

definition get_all_mods :: "store \<Rightarrow> mod_manager \<Rightarrow> (nat \<times> store) option" where
  "get_all_mods h mgr =
     (case objects h (mods_ref mgr) of
        Some (ListObj refs) \<Rightarrow>
          Some (next_free h,
                h\<lparr>objects := (objects h)(next_free h \<mapsto> ListObj refs),
                  next_free := Suc (next_free h)\<rparr>)
      | _ \<Rightarrow> None)"

text \<open>\<open>get_mod_by_id\<close>: \<^verbatim>\<open>return next((m for m in self.mods if m['id'] == mod_id), None)\<close>,
  the reference held by the list, for the first record with the id.\<close>

definition get_mod_by_id :: "store \<Rightarrow> mod_manager \<Rightarrow> string \<Rightarrow> nat option" where
  "get_mod_by_id h mgr i =
     (case objects h (mods_ref mgr) of
        Some (ListObj refs) \<Rightarrow>
          List.find (\<lambda>a. case deref_record h a of Some m \<Rightarrow> mod_id m = i | None \<Rightarrow> False) refs
      | _ \<Rightarrow> None)"

text \<open>What a caller can do with a reference it holds: change the list behind it in
  place (\<open>append\<close>, \<open>del\<close>, \<open>sort\<close>, an item assignment: any function on the entries), or
  change the record behind it in place (an assignment to a key: any function on the
  record).\<close>

definition mutate_list :: "nat \<Rightarrow> (nat list \<Rightarrow> nat list) \<Rightarrow> store \<Rightarrow> store" where
  "mutate_list a f h =
     (case objects h a of
        Some (ListObj refs) \<Rightarrow> h\<lparr>objects := (objects h)(a \<mapsto> ListObj (f refs))\<rparr>
      | _ \<Rightarrow> h)"

definition mutate_record :: "nat \<Rightarrow> (mod_record \<Rightarrow> mod_record) \<Rightarrow> store \<Rightarrow> store" where
  "mutate_record a f h =
     (case objects h a of
        Some (DictObj m) \<Rightarrow> h\<lparr>objects := (objects h)(a \<mapsto> DictObj (f m))\<rparr>
      | _ \<Rightarrow> h)"

text \<open>A repository with one record, the dependency 7: the list at address 0, the record
  at address 1.\<close>

definition example_store :: store where
  "example_store =
     \<lparr>objects = [0 \<mapsto> ListObj [1], 1 \<mapsto> DictObj (placeholder ''7'' True)], next_free = 2\<rparr>"

definition example_manager :: mod_manager where
  "example_manager = \<lparr>mods_ref = 0\<rparr>"

section \<open>Properties\<close>

subsection \<open>add_mod_by_id\<close>

lemma find_mod_None_iff: "find_mod i mods = None \<longleftrightarrow> i \<notin> mod_id ` set mods"
  by (auto simp: find_mod_def find_None_iff)

lemma find_mod_SomeD: "find_mod i mods = Some m \<Longrightarrow> m \<in> set mods \<and> mod_id m = i"
  by (auto simp: find_mod_def find_Some_iff)

lemma map_id_clear_dependency_flag [simp]:
  "map mod_id (clear_dependency_flag i mods) = map mod_id mods"
  by (induction mods) auto

lemma find_mod_append_placeholder:
  "find_mod i mods = None \<Longrightarrow> find_mod i (mods @ [placeholder i dep]) = Some (placeholder i dep)"
  by (induction mods) (auto simp: find_mod_def placeholder_def)

lemma find_mod_clear_dependency_flag:
  "find_mod i mods = Some m \<Longrightarrow>
   find_mod i (clear_dependency_flag i mods) = Some (m\<lparr>is_dependency := False\<rparr>)"
  by (induction mods) (auto simp: find_mod_def)

lemma clear_dependency_flag_update:
  "find_mod i mods = Some m \<Longrightarrow>
   \<exists>k < length mods. mods ! k = m \<and> (\<forall>j < k. mod_id (mods ! j) \<noteq> i) \<and>
     clear_dependency_flag i mods = mods[k := m\<lparr>is_dependency := False\<rparr>]"
proof (induction mods)
  case Nil
  then show ?case by (simp add: find_mod_def)
next
  case (Cons a mods)
  show ?case
  proof (cases "mod_id a = i")
    case True
    with Cons.prems have "a = m" by (simp add: find_mod_def)
    with True show ?thesis by (intro exI[of _ 0]) simp
  next
    case False
    with Cons.prems have "find_mod i mods = Some m" by (simp add: find_mod_def)
    from Cons.IH[OF this] obtain k where k: "k < length mods" "mods ! k = m"
      "\<forall>j < k. mod_id (mods ! j) \<noteq> i"
      "clear_dependency_flag i mods = mods[k := m\<lparr>is_dependency := False\<rparr>]" by blast
    have "\<forall>j < Suc k. mod_id ((a # mods) ! j) \<noteq> i"
      using k(3) False by (auto simp: nth_Cons split: nat.splits)
    with k False show ?thesis by (intro exI[of _ "Suc k"]) simp
  qed
qed

text \<open>
  Claim C3, as the code has it. \<open>add_mod_by_id\<close> appends a placeholder and returns
  \<open>True\<close> when no record has the id; clears the flag of the first record with the id
  and returns \<open>True\<close> when that record is a dependency and the caller passes
  \<open>is_dependency = False\<close>; returns \<open>False\<close> and leaves the list as it is in every other
  case. Two calls with \<open>is_dependency = False\<close> on an absent id return \<open>True\<close> then
  \<open>False\<close>; a call as dependency then one as non-dependency return \<open>True\<close> then
  \<open>True\<close>, and the flag ends cleared. The bool tells "unchanged" from the other two
  outcomes, and does not tell "added" from "changed".
\<close>

theorem add_mod_by_id_outcomes:
  "(find_mod i mods = None \<longrightarrow>
      add_mod_by_id i dep mods = (True, mods @ [placeholder i dep]))
   \<and> (\<forall>m. find_mod i mods = Some m \<and> is_dependency m \<and> \<not> dep \<longrightarrow>
        fst (add_mod_by_id i dep mods) = True
        \<and> find_mod i (snd (add_mod_by_id i dep mods)) = Some (m\<lparr>is_dependency := False\<rparr>)
        \<and> (\<exists>k < length mods. mods ! k = m \<and>
              snd (add_mod_by_id i dep mods) = mods[k := m\<lparr>is_dependency := False\<rparr>]))
   \<and> (\<forall>m. find_mod i mods = Some m \<and> \<not> (is_dependency m \<and> \<not> dep) \<longrightarrow>
        add_mod_by_id i dep mods = (False, mods))
   \<and> (find_mod i mods = None \<longrightarrow>
        (let (r1, s1) = add_mod_by_id i False mods; (r2, s2) = add_mod_by_id i False s1
         in r1 = True \<and> r2 = False \<and> s2 = s1))
   \<and> (find_mod i mods = None \<longrightarrow>
        (let (r1, s1) = add_mod_by_id i True mods; (r2, s2) = add_mod_by_id i False s1
         in r1 = True \<and> r2 = True \<and> s2 = mods @ [placeholder i True\<lparr>is_dependency := False\<rparr>]))"
proof (intro conjI impI allI)
  assume "find_mod i mods = None"
  then show "add_mod_by_id i dep mods = (True, mods @ [placeholder i dep])"
    by (simp add: add_mod_by_id_def)
next
  fix m assume a: "find_mod i mods = Some m \<and> is_dependency m \<and> \<not> dep"
  then show "fst (add_mod_by_id i dep mods) = True"
    by (simp add: add_mod_by_id_def)
  from a show "find_mod i (snd (add_mod_by_id i dep mods)) = Some (m\<lparr>is_dependency := False\<rparr>)"
    by (simp add: add_mod_by_id_def find_mod_clear_dependency_flag)
  from a clear_dependency_flag_update[of i mods m]
  show "\<exists>k < length mods. mods ! k = m \<and>
          snd (add_mod_by_id i dep mods) = mods[k := m\<lparr>is_dependency := False\<rparr>]"
    by (auto simp: add_mod_by_id_def)
next
  fix m assume "find_mod i mods = Some m \<and> \<not> (is_dependency m \<and> \<not> dep)"
  then show "add_mod_by_id i dep mods = (False, mods)"
    by (auto simp: add_mod_by_id_def)
next
  assume n: "find_mod i mods = None"
  have "is_dependency (placeholder i False) = False" by (simp add: placeholder_def)
  with n show "let (r1, s1) = add_mod_by_id i False mods; (r2, s2) = add_mod_by_id i False s1
         in r1 = True \<and> r2 = False \<and> s2 = s1"
    by (simp add: add_mod_by_id_def find_mod_append_placeholder)
next
  assume n: "find_mod i mods = None"
  have f: "find_mod i (mods @ [placeholder i True]) = Some (placeholder i True)"
    using n by (rule find_mod_append_placeholder)
  have c: "clear_dependency_flag i (mods @ [placeholder i True])
             = mods @ [placeholder i True\<lparr>is_dependency := False\<rparr>]"
    using n unfolding find_mod_None_iff
    by (induction mods) (auto simp: placeholder_def)
  have "is_dependency (placeholder i True)" by (simp add: placeholder_def)
  with n f c show "let (r1, s1) = add_mod_by_id i True mods; (r2, s2) = add_mod_by_id i False s1
         in r1 = True \<and> r2 = True \<and> s2 = mods @ [placeholder i True\<lparr>is_dependency := False\<rparr>]"
    by (simp add: add_mod_by_id_def)
qed

theorem add_mod_by_id_outcomes_witness:
  "find_mod ''7'' [] = None
   \<and> add_mod_by_id ''7'' False [] = (True, [placeholder ''7'' False])
   \<and> find_mod ''7'' [placeholder ''7'' True] = Some (placeholder ''7'' True)
   \<and> is_dependency (placeholder ''7'' True)
   \<and> fst (add_mod_by_id ''7'' False [placeholder ''7'' True]) = True
   \<and> find_mod ''7'' (snd (add_mod_by_id ''7'' False [placeholder ''7'' True]))
       = Some (placeholder ''7'' True\<lparr>is_dependency := False\<rparr>)
   \<and> find_mod ''7'' [placeholder ''7'' False] = Some (placeholder ''7'' False)
   \<and> add_mod_by_id ''7'' False [placeholder ''7'' False] = (False, [placeholder ''7'' False])
   \<and> add_mod_by_id ''7'' True [placeholder ''7'' True] = (False, [placeholder ''7'' True])"
  using add_mod_by_id_outcomes [of "''7''" "[]" False]
    add_mod_by_id_outcomes [of "''7''" "[placeholder ''7'' True]" False]
    add_mod_by_id_outcomes [of "''7''" "[placeholder ''7'' False]" False]
    add_mod_by_id_outcomes [of "''7''" "[placeholder ''7'' True]" True]
  by (simp add: find_mod_def placeholder_def)

text \<open>
  Claim C3 as stated fails: "added" and "changed" are not distinguishable by the
  returned value. On the empty repository the call appends a record, on a repository
  holding the id as a dependency it flips the flag, and both calls return the same bool.
\<close>

theorem add_mod_by_id_added_changed_same_report:
  "fst (add_mod_by_id ''7'' False []) = fst (add_mod_by_id ''7'' False [placeholder ''7'' True])
   \<and> snd (add_mod_by_id ''7'' False []) = [placeholder ''7'' False]
   \<and> snd (add_mod_by_id ''7'' False [placeholder ''7'' True])
       = [placeholder ''7'' True\<lparr>is_dependency := False\<rparr>]"
  by (simp add: add_mod_by_id_def find_mod_def placeholder_def)

subsection \<open>Unique ids\<close>

text \<open>
  Claim C10. When every id occurs at most once in the repository, it still does after
  \<open>add_mod_by_id\<close> and after \<open>add_mod_by_url\<close>; and when the id is already present,
  the list of ids is unchanged: the repository is either the same, or the same but for
  the \<open>is_dependency\<close> flag of the record with that id, now \<open>False\<close>.
\<close>

theorem add_preserves_unique_ids:
  "distinct (map mod_id mods) \<longrightarrow>
     distinct (map mod_id (snd (add_mod_by_id i dep mods)))
     \<and> distinct (map mod_id (snd (add_mod_by_url u mods)))
     \<and> (\<forall>m. find_mod i mods = Some m \<longrightarrow>
          map mod_id (snd (add_mod_by_id i dep mods)) = map mod_id mods
          \<and> (snd (add_mod_by_id i dep mods) = mods
             \<or> (\<exists>k < length mods. mods ! k = m \<and>
                  snd (add_mod_by_id i dep mods) = mods[k := m\<lparr>is_dependency := False\<rparr>])))
     \<and> (\<forall>j m. fst (add_mod_by_url u mods) = Some j \<and> find_mod j mods = Some m \<longrightarrow>
          map mod_id (snd (add_mod_by_url u mods)) = map mod_id mods
          \<and> (snd (add_mod_by_url u mods) = mods
             \<or> (\<exists>k < length mods. mods ! k = m \<and>
                  snd (add_mod_by_url u mods) = mods[k := m\<lparr>is_dependency := False\<rparr>])))"
proof (intro impI)
  assume d: "distinct (map mod_id mods)"
  have ids: "distinct (map mod_id (snd (add_mod_by_id j b mods)))" for j b
    using d by (auto simp: add_mod_by_id_def find_mod_None_iff placeholder_def split: option.splits)
  have ex: "map mod_id (snd (add_mod_by_id j b mods)) = map mod_id mods
          \<and> (snd (add_mod_by_id j b mods) = mods
             \<or> (\<exists>k < length mods. mods ! k = m \<and>
                  snd (add_mod_by_id j b mods) = mods[k := m\<lparr>is_dependency := False\<rparr>]))"
    if "find_mod j mods = Some m" for j b m
    using that clear_dependency_flag_update[OF that] by (auto simp: add_mod_by_id_def)
  have url: "snd (add_mod_by_url u mods) = mods \<or>
      (\<exists>j. fst (add_mod_by_url u mods) = Some j \<and> snd (add_mod_by_url u mods) = snd (add_mod_by_id j False mods))"
    by (auto simp: add_mod_by_url_def split: option.splits)
  have fsturl: "fst (add_mod_by_url u mods) = Some j \<Longrightarrow> snd (add_mod_by_url u mods) = snd (add_mod_by_id j False mods)" for j
    by (auto simp: add_mod_by_url_def split: option.splits)
  show "distinct (map mod_id (snd (add_mod_by_id i dep mods)))
     \<and> distinct (map mod_id (snd (add_mod_by_url u mods)))
     \<and> (\<forall>m. find_mod i mods = Some m \<longrightarrow>
          map mod_id (snd (add_mod_by_id i dep mods)) = map mod_id mods
          \<and> (snd (add_mod_by_id i dep mods) = mods
             \<or> (\<exists>k < length mods. mods ! k = m \<and>
                  snd (add_mod_by_id i dep mods) = mods[k := m\<lparr>is_dependency := False\<rparr>])))
     \<and> (\<forall>j m. fst (add_mod_by_url u mods) = Some j \<and> find_mod j mods = Some m \<longrightarrow>
          map mod_id (snd (add_mod_by_url u mods)) = map mod_id mods
          \<and> (snd (add_mod_by_url u mods) = mods
             \<or> (\<exists>k < length mods. mods ! k = m \<and>
                  snd (add_mod_by_url u mods) = mods[k := m\<lparr>is_dependency := False\<rparr>])))"
  proof (intro conjI allI impI)
    show "distinct (map mod_id (snd (add_mod_by_id i dep mods)))" by (rule ids)
    show "distinct (map mod_id (snd (add_mod_by_url u mods)))"
      using url ids d by auto
  next
    fix m assume "find_mod i mods = Some m"
    from ex[OF this]
    show "map mod_id (snd (add_mod_by_id i dep mods)) = map mod_id mods"
      and "snd (add_mod_by_id i dep mods) = mods
             \<or> (\<exists>k < length mods. mods ! k = m \<and>
                  snd (add_mod_by_id i dep mods) = mods[k := m\<lparr>is_dependency := False\<rparr>])"
      by blast+
  next
    fix j m assume a: "fst (add_mod_by_url u mods) = Some j \<and> find_mod j mods = Some m"
    then have s: "snd (add_mod_by_url u mods) = snd (add_mod_by_id j False mods)"
      using fsturl by blast
    from a ex[of j m False]
    show "map mod_id (snd (add_mod_by_url u mods)) = map mod_id mods"
      and "snd (add_mod_by_url u mods) = mods
             \<or> (\<exists>k < length mods. mods ! k = m \<and>
                  snd (add_mod_by_url u mods) = mods[k := m\<lparr>is_dependency := False\<rparr>])"
      unfolding s by blast+
  qed
qed


theorem add_preserves_unique_ids_witness:
  "distinct (map mod_id [placeholder ''7'' True])
   \<and> distinct (map mod_id (snd (add_mod_by_id ''7'' False [placeholder ''7'' True])))
   \<and> add_mod_by_url ''https://steamcommunity.com/sharedfiles/filedetails/?id=7''
        [placeholder ''7'' True] = (Some ''7'', [placeholder ''7'' True\<lparr>is_dependency := False\<rparr>])
   \<and> map mod_id (snd (add_mod_by_id ''7'' True [placeholder ''7'' True])) = [''7'']"
  using add_preserves_unique_ids [of "[placeholder ''7'' True]" "''7''" False
      "''https://steamcommunity.com/sharedfiles/filedetails/?id=7''"]
    add_preserves_unique_ids [of "[placeholder ''7'' True]" "''7''" True
      "''https://steamcommunity.com/sharedfiles/filedetails/?id=7''"]
  by (simp add: add_mod_by_url_def add_mod_by_id_def find_mod_def placeholder_def
      match_workshop_url_def match_digits_def is_digit_def)

subsection \<open>get_all_dependencies_efficient: termination\<close>

lemma fold_gade_add_dep:
  "processed (fold gade_add_dep ds s) = processed s
   \<and> fset (all_dependencies (fold gade_add_dep ds s)) = fset (all_dependencies s) \<union> set ds
   \<and> fset (to_process (fold gade_add_dep ds s))
        = fset (to_process s) \<union> (set ds - fset (processed s))"
  by (induction ds arbitrary: s) (auto simp: gade_add_dep_def Let_def)

lemma gade_body_sets:
  assumes "c |\<notin>| processed s"
  shows "fset (processed (gade_body d c s)) = insert c (fset (processed s))"
    and "fset (all_dependencies (gade_body d c s)) = fset (all_dependencies s) \<union> set (deps_of d c)"
    and "fset (to_process (gade_body d c s))
          = fset (to_process s) \<union> (set (deps_of d c) - insert c (fset (processed s)))"
  using assms by (auto simp: gade_body_def deps_of_def Let_def fold_gade_add_dep split: option.splits)

lemma gade_body_skip: "c |\<in>| processed s \<Longrightarrow> gade_body d c s = s"
  by (simp add: gade_body_def)

lemma dom_mods_dict: "dom (mods_dict mods) = mod_id ` set mods"
  by (auto simp: mods_dict_def dom_map_of_conv_image_fst image_image)

lemma mods_dict_SomeD: "mods_dict mods i = Some m \<Longrightarrow> m \<in> set mods \<and> mod_id m = i"
  by (auto simp: mods_dict_def dest!: map_of_SomeD)

lemma mods_dict_Cons:
  "mods_dict (m # ms) i =
     (case mods_dict ms i of Some x \<Rightarrow> Some x | None \<Rightarrow> if i = mod_id m then Some m else None)"
  by (simp add: mods_dict_def map_add_def split: option.splits)

text \<open>One iteration of the loop lowers the potential.\<close>

lemma gade_iteration_decreases:
  assumes fin: "finite (dom d)" and c: "c |\<in>| to_process s"
  shows "gade_potential d (gade_body d c (s\<lparr>to_process := to_process s |-| {|c|}\<rparr>))
           < gade_potential d s"
proof (cases "c |\<in>| processed s")
  case True
  have "card (fset (to_process s) - {c}) < card (fset (to_process s))"
    using c by (intro card_Diff1_less) auto
  with True show ?thesis
    by (simp add: gade_body_skip gade_potential_def)
next
  case False
  let ?s0 = "s\<lparr>to_process := to_process s |-| {|c|}\<rparr>"
  let ?w = "\<lambda>i. length (deps_of d i)"
  have np: "c |\<notin>| processed ?s0" using False by simp
  have tp: "fset (to_process (gade_body d c ?s0))
              \<subseteq> (fset (to_process s) - {c}) \<union> set (deps_of d c)"
    using gade_body_sets(3)[OF np, of d] by auto
  have "card (fset (to_process (gade_body d c ?s0)))
          \<le> card ((fset (to_process s) - {c}) \<union> set (deps_of d c))"
    by (rule card_mono[OF _ tp]) simp
  also have "\<dots> \<le> card (fset (to_process s) - {c}) + card (set (deps_of d c))"
    by (rule card_Un_le)
  also have "\<dots> \<le> card (fset (to_process s) - {c}) + ?w c"
    by (simp add: card_length)
  finally have c1: "card (fset (to_process (gade_body d c ?s0)))
          \<le> card (fset (to_process s) - {c}) + ?w c" .
  have c2: "card (fset (to_process s) - {c}) < card (fset (to_process s))"
    using c by (intro card_Diff1_less) auto
  have pr: "fset (processed (gade_body d c ?s0)) = insert c (fset (processed s))"
    using gade_body_sets(1)[OF np, of d] by simp
  have w: "(\<Sum>i \<in> dom d - insert c (fset (processed s)). ?w i) + ?w c
             = (\<Sum>i \<in> dom d - fset (processed s). ?w i)"
  proof (cases "c \<in> dom d")
    case True
    have "dom d - insert c (fset (processed s)) = (dom d - fset (processed s)) - {c}" by auto
    moreover have "c \<in> dom d - fset (processed s)" using True False by auto
    moreover have "finite (dom d - fset (processed s))" using fin by simp
    ultimately show ?thesis by (simp add: sum.remove)
  next
    case False
    then have "?w c = 0" by (auto simp: deps_of_def split: option.splits)
    moreover have "dom d - insert c (fset (processed s)) = dom d - fset (processed s)"
      using False by auto
    ultimately show ?thesis by simp
  qed
  show ?thesis
    unfolding gade_potential_def pr using c1 c2 w by linarith
qed

lemma gade_while_potential:
  "finite (dom d) \<Longrightarrow> gade_while d pops s = Some s' \<Longrightarrow>
     length pops + gade_potential d s' \<le> gade_potential d s"
proof (induction pops arbitrary: s)
  case Nil
  then show ?case by simp
next
  case (Cons c pops)
  from Cons.prems(2) have c: "c |\<in>| to_process s"
    and r: "gade_while d pops (gade_body d c (s\<lparr>to_process := to_process s |-| {|c|}\<rparr>)) = Some s'"
    by (auto split: if_splits)
  from Cons.IH[OF Cons.prems(1) r] gade_iteration_decreases[OF Cons.prems(1) c]
  show ?case by simp
qed

text \<open>\<open>processed\<close> only grows.\<close>

lemma gade_processed_grows:
  "gade_while d pops s = Some s' \<Longrightarrow> fset (processed s) \<subseteq> fset (processed s')"
proof (induction pops arbitrary: s)
  case Nil
  then show ?case by simp
next
  case (Cons c pops)
  let ?s0 = "s\<lparr>to_process := to_process s |-| {|c|}\<rparr>"
  from Cons.prems have r: "gade_while d pops (gade_body d c ?s0) = Some s'"
    by (auto split: if_splits)
  have "fset (processed s) \<subseteq> fset (processed (gade_body d c ?s0))"
  proof (cases "c |\<in>| processed s")
    case True
    then show ?thesis by (simp add: gade_body_skip)
  next
    case False
    then have "c |\<notin>| processed ?s0" by simp
    from gade_body_sets(1)[OF this, of d] show ?thesis by auto
  qed
  with Cons.IH[OF r] show ?case by blast
qed

lemma gade_while_append:
  "gade_while d (p @ q) s = (case gade_while d p s of None \<Rightarrow> None | Some s1 \<Rightarrow> gade_while d q s1)"
  by (induction p arbitrary: s) auto

lemma gade_while_exit:
  "finite (dom d) \<Longrightarrow> \<exists>pops s'. gade_while d pops s = Some s' \<and> to_process s' = {||}"
proof (induction "gade_potential d s" arbitrary: s rule: less_induct)
  case less
  show ?case
  proof (cases "to_process s = {||}")
    case True
    then have "gade_while d [] s = Some s \<and> to_process s = {||}" by simp
    then show ?thesis by blast
  next
    case False
    then obtain c where c: "c |\<in>| to_process s" by auto
    let ?s1 = "gade_body d c (s\<lparr>to_process := to_process s |-| {|c|}\<rparr>)"
    from less.hyps[OF gade_iteration_decreases[OF less.prems c] less.prems]
    obtain pops s' where "gade_while d pops ?s1 = Some s'" "to_process s' = {||}" by blast
    with c have "gade_while d (c # pops) s = Some s' \<and> to_process s' = {||}" by simp
    then show ?thesis by blast
  qed
qed

lemma sum_deps_le:
  "(\<Sum>i \<in> dom (mods_dict mods). length (deps_of (mods_dict mods) i))
     \<le> sum_list (map (length \<circ> mod_dependencies) mods)"
proof (induction mods)
  case Nil
  then show ?case by (simp add: mods_dict_def)
next
  case (Cons m ms)
  let ?w = "\<lambda>ms i. length (deps_of (mods_dict ms) i)"
  have agree: "?w (m # ms) i = ?w ms i" if "i \<in> dom (mods_dict ms)" for i
    using that by (auto simp: deps_of_def mods_dict_Cons)
  have dom: "dom (mods_dict (m # ms)) = insert (mod_id m) (dom (mods_dict ms))"
    by (simp add: dom_mods_dict)
  show ?case
  proof (cases "mod_id m \<in> dom (mods_dict ms)")
    case True
    then have "dom (mods_dict (m # ms)) = dom (mods_dict ms)" using dom by auto
    then have "(\<Sum>i \<in> dom (mods_dict (m # ms)). ?w (m # ms) i)
                 = (\<Sum>i \<in> dom (mods_dict ms). ?w ms i)"
      using agree by (simp cong: sum.cong)
    with Cons.IH show ?thesis by simp
  next
    case False
    then have new: "?w (m # ms) (mod_id m) = length (mod_dependencies m)"
      by (auto simp: deps_of_def mods_dict_Cons split: option.splits)
    have "(\<Sum>i \<in> dom (mods_dict (m # ms)). ?w (m # ms) i)
            = ?w (m # ms) (mod_id m) + (\<Sum>i \<in> dom (mods_dict ms). ?w (m # ms) i)"
      unfolding dom using False by (subst sum.insert) (auto simp: dom_mods_dict)
    also have "(\<Sum>i \<in> dom (mods_dict ms). ?w (m # ms) i) = (\<Sum>i \<in> dom (mods_dict ms). ?w ms i)"
      using agree by (simp cong: sum.cong)
    finally show ?thesis using Cons.IH new by simp
  qed
qed

lemma gade_potential_init:
  "gade_potential (mods_dict mods) (gade_init mod_ids)
     \<le> fcard mod_ids + sum_list (map (length \<circ> mod_dependencies) mods)"
  using sum_deps_le[of mods] by (simp add: gade_potential_def gade_init_def fcard.rep_eq)

lemmas gade_eval = example_cycle_def get_all_dependencies_efficient_def gade_init_def
  mods_dict_def gade_body_def gade_add_dep_def mod_dependencies_def Let_def

lemma example_cycle_run1:
  "gade_while (mods_dict example_cycle) [''1'', ''9'', ''2''] (gade_init {|''1''|})
     = Some \<lparr>all_dependencies = {|''1'', ''2'', ''9''|}, to_process = {||},
              processed = {|''1'', ''2'', ''9''|}\<rparr>"
  by (simp add: gade_eval) auto

lemma example_cycle_run2:
  "get_all_dependencies_efficient example_cycle [''1'', ''2'', ''9'']
      ({|''1'', ''2'', ''9''|} |\<union>| {|''1''|}) = Some {|''1'', ''2'', ''9''|}"
  by (simp add: gade_eval) auto

text \<open>
  Claim C4. For every repository (cycles and dependencies on absent ids included) and
  every seed set, the loop of \<open>get_all_dependencies_efficient\<close> terminates: some run
  reaches the exit and returns; and whatever \<open>pop\<close> returns, a run of the loop has at
  most as many iterations as there are seeds plus dependency entries in the repository,
  and can be continued to the exit. (Every iteration lowers \<open>gade_potential\<close>.)
\<close>

theorem gade_terminates:
  "(\<exists>pops r. get_all_dependencies_efficient mods pops mod_ids = Some r)
   \<and> (\<forall>pops s. gade_while (mods_dict mods) pops (gade_init mod_ids) = Some s \<longrightarrow>
        length pops \<le> fcard mod_ids + sum_list (map (length \<circ> mod_dependencies) mods)
        \<and> (\<exists>more r. get_all_dependencies_efficient mods (pops @ more) mod_ids = Some r))"
proof (intro conjI allI impI)
  have fin: "finite (dom (mods_dict mods))" by (simp add: dom_mods_dict)
  from gade_while_exit[OF fin, of "gade_init mod_ids"]
  obtain pops s' where "gade_while (mods_dict mods) pops (gade_init mod_ids) = Some s'"
    "to_process s' = {||}" by blast
  then have "get_all_dependencies_efficient mods pops mod_ids = Some (all_dependencies s')"
    by (simp add: get_all_dependencies_efficient_def)
  then show "\<exists>pops r. get_all_dependencies_efficient mods pops mod_ids = Some r" by blast
next
  fix pops s
  assume run: "gade_while (mods_dict mods) pops (gade_init mod_ids) = Some s"
  have fin: "finite (dom (mods_dict mods))" by (simp add: dom_mods_dict)
  from gade_while_potential[OF fin run] gade_potential_init[of mods mod_ids]
  show "length pops \<le> fcard mod_ids + sum_list (map (length \<circ> mod_dependencies) mods)"
    by linarith
  from gade_while_exit[OF fin, of s]
  obtain more s' where "gade_while (mods_dict mods) more s = Some s'" "to_process s' = {||}"
    by blast
  with run have "get_all_dependencies_efficient mods (pops @ more) mod_ids = Some (all_dependencies s')"
    by (simp add: get_all_dependencies_efficient_def gade_while_append)
  then show "\<exists>more r. get_all_dependencies_efficient mods (pops @ more) mod_ids = Some r"
    by blast
qed


theorem gade_terminates_witness:
  "gade_while (mods_dict example_cycle) [''1'', ''9'', ''2''] (gade_init {|''1''|})
     = Some \<lparr>all_dependencies = {|''1'', ''2'', ''9''|}, to_process = {||},
              processed = {|''1'', ''2'', ''9''|}\<rparr>
   \<and> length [''1'', ''9'', ''2'']
        \<le> fcard {|''1''|} + sum_list (map (length \<circ> mod_dependencies) example_cycle)
   \<and> (\<exists>more r. get_all_dependencies_efficient example_cycle ([''1'', ''9'', ''2''] @ more)
          {|''1''|} = Some r)"
  using gade_terminates [of example_cycle "{|''1''|}"] example_cycle_run1 by blast

subsection \<open>get_all_dependencies_efficient: the closure\<close>

lemma dep_rel_Image: "dep_rel mods `` {c} = set (deps_of (mods_dict mods) c)"
  by (cases "mods_dict mods c") (auto simp: dep_rel_def deps_of_def)

lemma gade_inv_init: "gade_inv mods mod_ids (gade_init mod_ids)"
  by (auto simp: gade_inv_def gade_init_def)

lemma gade_inv_iteration:
  assumes inv: "gade_inv mods mod_ids s" and c: "c |\<in>| to_process s"
  shows "gade_inv mods mod_ids
           (gade_body (mods_dict mods) c (s\<lparr>to_process := to_process s |-| {|c|}\<rparr>))"
proof (cases "c |\<in>| processed s")
  case True
  with inv show ?thesis
    by (auto simp: gade_body_skip gade_inv_def)
next
  case False
  let ?E = "dep_rel mods"
  let ?s0 = "s\<lparr>to_process := to_process s |-| {|c|}\<rparr>"
  let ?s1 = "gade_body (mods_dict mods) c ?s0"
  let ?D = "set (deps_of (mods_dict mods) c)"
  have np: "c |\<notin>| processed ?s0" using False by simp
  note b = gade_body_sets[OF np, of "mods_dict mods", simplified]
  have i1: "fset (all_dependencies s) \<subseteq> ?E\<^sup>+ `` fset mod_ids"
    and i2: "fset (to_process s) \<subseteq> ?E\<^sup>* `` fset mod_ids"
    and i3: "fset (processed s) \<subseteq> ?E\<^sup>* `` fset mod_ids"
    and i4: "fset mod_ids \<subseteq> fset (processed s) \<union> fset (to_process s)"
    and i5: "?E `` fset (processed s) \<subseteq> fset (all_dependencies s)"
    and i6: "fset (all_dependencies s) \<subseteq> fset (processed s) \<union> fset (to_process s)"
    using inv unfolding gade_inv_def by simp_all
  have cin: "c \<in> fset (to_process s)" using c by simp
  have creach: "c \<in> ?E\<^sup>* `` fset mod_ids" using i2 cin by blast
  have D: "?D = ?E `` {c}" by (simp add: dep_rel_Image)
  have Dplus: "?D \<subseteq> ?E\<^sup>+ `` fset mod_ids"
    unfolding D using creach by (auto intro: rtrancl_into_trancl1)
  have Dstar: "?D \<subseteq> ?E\<^sup>* `` fset mod_ids"
    using Dplus by (auto intro: trancl_into_rtrancl)
  have 1: "fset (all_dependencies ?s1) \<subseteq> ?E\<^sup>+ `` fset mod_ids"
    unfolding b using i1 Dplus by (rule Un_least)
  have 2: "fset (to_process ?s1) \<subseteq> ?E\<^sup>* `` fset mod_ids"
    unfolding b using i2 Dstar by auto
  have 3: "fset (processed ?s1) \<subseteq> ?E\<^sup>* `` fset mod_ids"
    unfolding b using i3 creach by auto
  have 4: "fset mod_ids \<subseteq> fset (processed ?s1) \<union> fset (to_process ?s1)"
    unfolding b using i4 by auto
  have "?E `` insert c (fset (processed s)) = ?E `` {c} \<union> ?E `` fset (processed s)"
    by blast
  then have 5: "?E `` fset (processed ?s1) \<subseteq> fset (all_dependencies ?s1)"
    unfolding b D using i5 by auto
  have 6: "fset (all_dependencies ?s1) \<subseteq> fset (processed ?s1) \<union> fset (to_process ?s1)"
    unfolding b using i6 by auto
  show ?thesis unfolding gade_inv_def using 1 2 3 4 5 6 by (intro conjI)
qed

lemma gade_while_inv:
  "gade_inv mods mod_ids s \<Longrightarrow> gade_while (mods_dict mods) pops s = Some s' \<Longrightarrow>
   gade_inv mods mod_ids s'"
proof (induction pops arbitrary: s)
  case Nil
  then show ?case by simp
next
  case (Cons c pops)
  from Cons.prems(2) have c: "c |\<in>| to_process s"
    and r: "gade_while (mods_dict mods) pops
              (gade_body (mods_dict mods) c (s\<lparr>to_process := to_process s |-| {|c|}\<rparr>)) = Some s'"
    by (auto split: if_splits)
  from Cons.IH[OF gade_inv_iteration[OF Cons.prems(1) c] r] show ?case .
qed

lemma gade_inv_exit:
  assumes inv: "gade_inv mods mod_ids s" and e: "to_process s = {||}"
  shows "fset (all_dependencies s) = (dep_rel mods)\<^sup>+ `` fset mod_ids"
proof
  show "fset (all_dependencies s) \<subseteq> (dep_rel mods)\<^sup>+ `` fset mod_ids"
    using inv by (simp add: gade_inv_def)
next
  let ?E = "dep_rel mods"
  have seeds: "fset mod_ids \<subseteq> fset (processed s)"
    and closed: "?E `` fset (processed s) \<subseteq> fset (all_dependencies s)"
    and sub: "fset (all_dependencies s) \<subseteq> fset (processed s)"
    using inv e by (auto simp: gade_inv_def)
  have "y \<in> fset (all_dependencies s)" if "(x, y) \<in> ?E\<^sup>+" "x \<in> fset mod_ids" for x y
    using that
  proof (induction rule: trancl_induct)
    case (base y)
    then show ?case using seeds closed by blast
  next
    case (step y z)
    then show ?case using sub closed by blast
  qed
  then show "(dep_rel mods)\<^sup>+ `` fset mod_ids \<subseteq> fset (all_dependencies s)" by blast
qed

lemma gade_result:
  assumes "get_all_dependencies_efficient mods pops mod_ids = Some r"
  shows "fset r = (dep_rel mods)\<^sup>+ `` fset mod_ids"
proof -
  from assms obtain s where run: "gade_while (mods_dict mods) pops (gade_init mod_ids) = Some s"
    and e: "to_process s = {||}" and r: "r = all_dependencies s"
    by (auto simp: get_all_dependencies_efficient_def split: option.splits if_splits)
  from gade_while_inv[OF gade_inv_init run] have "gade_inv mods mod_ids s" .
  from gade_inv_exit[OF this e] r show ?thesis by simp
qed

text \<open>
  Claim C5. For a fixed repository, the closure of \<open>deps \<union> mod_ids\<close>, where \<open>deps\<close> is
  the closure of \<open>mod_ids\<close>, adds nothing to \<open>deps \<union> mod_ids\<close>, whatever order \<open>pop\<close>
  follows in the two runs; it is \<open>deps\<close> again.
\<close>

theorem gade_closure_idempotent:
  "get_all_dependencies_efficient mods pops1 mod_ids = Some deps \<and>
   get_all_dependencies_efficient mods pops2 (deps |\<union>| mod_ids) = Some deps'
   \<longrightarrow> deps' |\<subseteq>| deps |\<union>| mod_ids \<and> deps' = deps"
proof (intro impI, elim conjE)
  assume a: "get_all_dependencies_efficient mods pops1 mod_ids = Some deps"
    and b: "get_all_dependencies_efficient mods pops2 (deps |\<union>| mod_ids) = Some deps'"
  let ?E = "dep_rel mods"
  have A: "fset deps = ?E\<^sup>+ `` fset mod_ids" using gade_result[OF a] .
  have B: "fset deps' = ?E\<^sup>+ `` (fset deps \<union> fset mod_ids)" using gade_result[OF b] by simp
  have "?E\<^sup>+ `` (?E\<^sup>+ `` fset mod_ids) \<subseteq> ?E\<^sup>+ `` fset mod_ids"
    by (auto intro: trancl_trans)
  then have "fset deps' = fset deps" unfolding B A by blast
  then have "deps' = deps" by (simp add: fset_inject)
  then show "deps' |\<subseteq>| deps |\<union>| mod_ids \<and> deps' = deps" by auto
qed

theorem gade_closure_idempotent_witness:
  "get_all_dependencies_efficient example_cycle [''1'', ''9'', ''2''] {|''1''|}
     = Some {|''1'', ''2'', ''9''|}
   \<and> get_all_dependencies_efficient example_cycle [''1'', ''2'', ''9'']
        ({|''1'', ''2'', ''9''|} |\<union>| {|''1''|}) = Some {|''1'', ''2'', ''9''|}
   \<and> {|''1'', ''2'', ''9''|} |\<subseteq>| {|''1'', ''2'', ''9''|} |\<union>| {|''1''|}"
proof -
  have a: "get_all_dependencies_efficient example_cycle [''1'', ''9'', ''2''] {|''1''|}
     = Some {|''1'', ''2'', ''9''|}"
    using example_cycle_run1 by (simp add: get_all_dependencies_efficient_def)
  from gade_closure_idempotent [of example_cycle "[''1'', ''9'', ''2'']" "{|''1''|}"
      "{|''1'', ''2'', ''9''|}" "[''1'', ''2'', ''9'']" "{|''1'', ''2'', ''9''|}"]
    a example_cycle_run2
  show ?thesis by blast
qed


subsection \<open>build_hierarchical_list\<close>

lemma dict_keyed_mods_dict: "dict_keyed (mods_dict mods)"
  by (auto simp: dict_keyed_def dest: mods_dict_SomeD)

lemma walk_total:
  shows "dict_keyed d \<Longrightarrow> finite (dom d) \<Longrightarrow> mod_id m \<in> dom d \<Longrightarrow> mod_id m |\<notin>| visited
          \<Longrightarrow> fset visited \<subseteq> dom d \<Longrightarrow> card (dom d - fset visited) \<le> depth
          \<Longrightarrow> add_mod_with_dependencies depth d m lvl visited st \<noteq> None"
    and "dict_keyed d \<Longrightarrow> finite (dom d) \<Longrightarrow> fset visited \<subseteq> dom d
          \<Longrightarrow> card (dom d - fset visited) \<le> depth
          \<Longrightarrow> add_dependencies depth d deps lvl visited st \<noteq> None"
proof (induction depth d m lvl visited st and depth d deps lvl visited st
        rule: add_mod_with_dependencies_add_dependencies.induct)
  case (1 d m lvl visited st)
  have "mod_id m \<in> dom d - fset visited" using "1.prems" by auto
  then have ne: "dom d - fset visited \<noteq> {}" by blast
  have "finite (dom d - fset visited)" using "1.prems"(2) by (rule finite_Diff)
  with ne have "card (dom d - fset visited) > 0" unfolding card_gt_0_iff by (rule conjI)
  with "1.prems"(6) show ?case by simp
next
  case (2 depth d m lvl visited st)
  show ?case
  proof (cases "mod_id m |\<in>| visited \<or> mod_id m |\<in>| processed_mods st")
    case True
    then show ?thesis by simp
  next
    case False
    have in_diff: "mod_id m \<in> dom d - fset visited" using "2.prems" by auto
    have sub: "fset (finsert (mod_id m) visited) \<subseteq> dom d" using "2.prems" by auto
    have "dom d - fset (finsert (mod_id m) visited) = (dom d - fset visited) - {mod_id m}"
      by auto
    then have "card (dom d - fset (finsert (mod_id m) visited)) = card (dom d - fset visited) - 1"
      using in_diff "2.prems"(2) by (simp add: card_Diff_singleton)
    with "2.prems"(6) have le: "card (dom d - fset (finsert (mod_id m) visited)) \<le> depth" by simp
    from "2.IH"[OF False "2.prems"(1,2) sub le] False show ?thesis by simp
  qed
next
  case (3 depth d lvl visited st)
  then show ?case by simp
next
  case (4 depth d dep_id deps lvl visited st)
  show ?case
  proof (cases "d dep_id")
    case None
    from "4.IH"(1)[OF None "4.prems"] None show ?thesis by simp
  next
    case (Some dep_mod)
    show ?thesis
    proof (cases "dep_id |\<notin>| visited")
      case False
      from "4.IH"(4)[OF Some False "4.prems"] Some False show ?thesis by simp
    next
      case True
      have key: "mod_id dep_mod = dep_id" using "4.prems"(1) Some by (simp add: dict_keyed_def)
      then have indom: "mod_id dep_mod \<in> dom d" using Some by auto
      have nv: "mod_id dep_mod |\<notin>| visited" using key True by simp
      from "4.IH"(2)[OF Some True "4.prems"(1,2) indom nv "4.prems"(3,4)]
      obtain st' where st': "add_mod_with_dependencies depth d dep_mod lvl visited st = Some st'"
        by auto
      from "4.IH"(3)[OF Some True st' "4.prems"] st' Some True show ?thesis by simp
    qed
  qed
qed

lemma bhl_inv_emit:
  assumes "bhl_inv M st" "m \<in> M" "mod_id m |\<notin>| processed_mods st"
  shows "bhl_inv M (st\<lparr>processed_mods := finsert (mod_id m) (processed_mods st),
                       hierarchical_list := hierarchical_list st @ [(m, lvl)]\<rparr>)"
  using assms unfolding bhl_inv_def by auto

lemma walk_inv:
  shows "bhl_inv M st \<Longrightarrow> m \<in> M \<Longrightarrow> ran d \<subseteq> M
          \<Longrightarrow> add_mod_with_dependencies depth d m lvl visited st = Some st'
          \<Longrightarrow> bhl_inv M st' \<and> fset (processed_mods st) \<subseteq> fset (processed_mods st')
              \<and> (mod_id m |\<in>| visited \<or> mod_id m |\<in>| processed_mods st')"
    and "bhl_inv M st \<Longrightarrow> ran d \<subseteq> M
          \<Longrightarrow> add_dependencies depth d deps lvl visited st = Some st'
          \<Longrightarrow> bhl_inv M st' \<and> fset (processed_mods st) \<subseteq> fset (processed_mods st')"
proof (induction depth d m lvl visited st and depth d deps lvl visited st
        arbitrary: st' and st'
        rule: add_mod_with_dependencies_add_dependencies.induct)
  case (1 d m lvl visited st)
  then show ?case by (auto split: if_splits)
next
  case (2 depth d m lvl visited st)
  show ?case
  proof (cases "mod_id m |\<in>| visited \<or> mod_id m |\<in>| processed_mods st")
    case True
    with "2.prems" show ?thesis by auto
  next
    case False
    let ?st1 = "st\<lparr>processed_mods := finsert (mod_id m) (processed_mods st),
                    hierarchical_list := hierarchical_list st @ [(m, lvl)]\<rparr>"
    have inv1: "bhl_inv M ?st1" using "2.prems" False by (intro bhl_inv_emit) auto
    have run: "add_dependencies depth d (mod_dependencies m) (lvl + 1)
                 (finsert (mod_id m) visited) ?st1 = Some st'"
      using "2.prems"(4) False by simp
    from "2.IH"[OF False inv1 "2.prems"(3) run]
    show ?thesis by auto
  qed
next
  case (3 depth d lvl visited st)
  then show ?case by simp
next
  case (4 depth d dep_id deps lvl visited st)
  show ?case
  proof (cases "d dep_id")
    case None
    with "4.prems"(3) have "add_dependencies depth d deps lvl visited st = Some st'" by simp
    from "4.IH"(1)[OF None "4.prems"(1,2) this] show ?thesis .
  next
    case (Some dep_mod)
    show ?thesis
    proof (cases "dep_id |\<notin>| visited")
      case False
      with "4.prems"(3) Some have "add_dependencies depth d deps lvl visited st = Some st'"
        by simp
      from "4.IH"(4)[OF Some False "4.prems"(1,2) this] show ?thesis .
    next
      case True
      have inM: "dep_mod \<in> M" using Some "4.prems"(2) by (auto simp: ran_def)
      from "4.prems"(3) Some True
      obtain st1 where st1: "add_mod_with_dependencies depth d dep_mod lvl visited st = Some st1"
        and rest: "add_dependencies depth d deps lvl visited st1 = Some st'"
        by (auto split: option.splits)
      from "4.IH"(2)[OF Some True "4.prems"(1) inM "4.prems"(2) st1]
      have a1: "bhl_inv M st1" and a2: "fset (processed_mods st) \<subseteq> fset (processed_mods st1)"
        by simp_all
      from "4.IH"(3)[OF Some True st1 a1 "4.prems"(2) rest]
      have b1: "bhl_inv M st'" and b2: "fset (processed_mods st1) \<subseteq> fset (processed_mods st')"
        by simp_all
      from a2 b2 have "fset (processed_mods st) \<subseteq> fset (processed_mods st')"
        by (rule subset_trans)
      with b1 show ?thesis by (rule conjI)
    qed
  qed
qed

lemma walk_deeper:
  shows "add_mod_with_dependencies depth d m lvl visited st = Some st'
          \<Longrightarrow> add_mod_with_dependencies (Suc depth) d m lvl visited st = Some st'"
    and "add_dependencies depth d deps lvl visited st = Some st'
          \<Longrightarrow> add_dependencies (Suc depth) d deps lvl visited st = Some st'"
proof (induction depth d m lvl visited st and depth d deps lvl visited st
        arbitrary: st' and st'
        rule: add_mod_with_dependencies_add_dependencies.induct)
  case (1 d m lvl visited st)
  then show ?case by (auto split: if_splits)
next
  case (2 depth d m lvl visited st)
  then show ?case by (auto split: if_splits)
next
  case (3 depth d lvl visited st)
  then show ?case by simp
next
  case (4 depth d dep_id deps lvl visited st)
  show ?case
  proof (cases "d dep_id")
    case None
    with "4.prems" have "add_dependencies depth d deps lvl visited st = Some st'" by simp
    from "4.IH"(1)[OF None this] None show ?thesis by simp
  next
    case (Some dep_mod)
    show ?thesis
    proof (cases "dep_id |\<notin>| visited")
      case False
      with "4.prems" Some have "add_dependencies depth d deps lvl visited st = Some st'"
        by simp
      from "4.IH"(4)[OF Some False this] Some False show ?thesis by simp
    next
      case True
      from "4.prems" Some True
      obtain st1 where st1: "add_mod_with_dependencies depth d dep_mod lvl visited st = Some st1"
        and rest: "add_dependencies depth d deps lvl visited st1 = Some st'"
        by (auto split: option.splits)
      have a: "add_mod_with_dependencies (Suc depth) d dep_mod lvl visited st = Some st1"
        using "4.IH"(2)[OF Some True st1] .
      have b: "add_dependencies (Suc depth) d deps lvl visited st1 = Some st'"
        using "4.IH"(3)[OF Some True st1 rest] .
      from a b Some True show ?thesis by simp
    qed
  qed
qed

lemma add_mod_deeper:
  "add_mod_with_dependencies depth d m lvl visited st = Some st'
     \<Longrightarrow> add_mod_with_dependencies (depth + k) d m lvl visited st = Some st'"
  by (induction k) (auto dest: walk_deeper(1))

lemma add_roots_deeper:
  "add_roots depth d ms st = Some st' \<Longrightarrow> add_roots (depth + k) d ms st = Some st'"
  by (induction ms arbitrary: st) (auto split: option.splits dest: add_mod_deeper[where k = k])

lemma add_unprocessed_deeper:
  "add_unprocessed depth d ms st = Some st' \<Longrightarrow> add_unprocessed (depth + k) d ms st = Some st'"
  by (induction ms arbitrary: st)
     (auto split: option.splits if_splits dest: add_mod_deeper[where k = k])

lemma build_hierarchical_list_deeper:
  assumes "build_hierarchical_list depth mods = Some out"
  shows "build_hierarchical_list (depth + k) mods = Some out"
proof -
  let ?st0 = "\<lparr>hierarchical_list = [], processed_mods = {||}\<rparr>"
  from assms obtain st1 st2
    where r1: "add_roots depth (mods_dict mods) (root_mods mods) ?st0 = Some st1"
      and r2: "add_unprocessed depth (mods_dict mods) mods st1 = Some st2"
      and out: "out = hierarchical_list st2"
    by (auto simp: build_hierarchical_list_def split: option.splits)
  from add_roots_deeper[OF r1, of k] add_unprocessed_deeper[OF r2, of k] out
  show ?thesis by (simp add: build_hierarchical_list_def)
qed

lemma ran_mods_dict: "ran (mods_dict mods) \<subseteq> set mods"
  by (auto simp: ran_def dest: mods_dict_SomeD)

lemma outline_append:
  "outline stk (ys @ zs) = (case outline stk ys of None \<Rightarrow> None | Some s \<Rightarrow> outline s zs)"
  by (induction stk ys rule: outline.induct) auto

lemma appends_outline_refl: "appends_outline st st lvl ok"
  by (auto simp: appends_outline_def)

lemma walk_outline:
  shows "dict_keyed d \<Longrightarrow> add_mod_with_dependencies depth d m lvl visited st = Some st'
          \<Longrightarrow> appends_outline st st' lvl
                (\<lambda>stk. lvl = 0 \<or> mod_id m \<in> set (mod_dependencies (stk ! (lvl - 1))))"
    and "dict_keyed d \<Longrightarrow> add_dependencies depth d deps lvl visited st = Some st'
          \<Longrightarrow> appends_outline st st' lvl
                (\<lambda>stk. 0 < lvl \<and> set deps \<subseteq> set (mod_dependencies (stk ! (lvl - 1))))"
proof (induction depth d m lvl visited st and depth d deps lvl visited st
        arbitrary: st' and st'
        rule: add_mod_with_dependencies_add_dependencies.induct)
  case (1 d m lvl visited st)
  then show ?case by simp
next
  case (2 depth d m lvl visited st)
  show ?case
  proof (cases "mod_id m |\<in>| visited \<or> mod_id m |\<in>| processed_mods st")
    case True
    with "2.prems" have "st' = st" by simp
    then show ?thesis by (simp add: appends_outline_refl)
  next
    case False
    let ?st1 = "st\<lparr>processed_mods := finsert (mod_id m) (processed_mods st),
                    hierarchical_list := hierarchical_list st @ [(m, lvl)]\<rparr>"
    have run: "add_dependencies depth d (mod_dependencies m) (lvl + 1)
                 (finsert (mod_id m) visited) ?st1 = Some st'"
      using "2.prems"(2) False by simp
    from "2.IH"[OF False "2.prems"(1) run]
    obtain ys where ys: "hierarchical_list st' = hierarchical_list ?st1 @ ys"
      and below: "\<And>stk. lvl + 1 \<le> length stk
             \<Longrightarrow> set (mod_dependencies m) \<subseteq> set (mod_dependencies (stk ! (lvl + 1 - 1)))
             \<Longrightarrow> \<exists>stk'. outline stk ys = Some stk' \<and> take (lvl + 1) stk' = take (lvl + 1) stk
                   \<and> lvl + 1 \<le> length stk'"
      unfolding appends_outline_def by auto
    have "\<exists>stk'. outline stk ((m, lvl) # ys) = Some stk' \<and> take lvl stk' = take lvl stk
            \<and> lvl \<le> length stk'"
      if len: "lvl \<le> length stk"
        and par: "lvl = 0 \<or> mod_id m \<in> set (mod_dependencies (stk ! (lvl - 1)))" for stk
    proof -
      let ?stk1 = "take lvl stk @ [m]"
      have l1: "length ?stk1 = lvl + 1" using len by simp
      have top: "?stk1 ! (lvl + 1 - 1) = m" using len by (simp add: nth_append)
      from below[of ?stk1] l1 top len
      obtain stk' where o: "outline ?stk1 ys = Some stk'"
        and t: "take (lvl + 1) stk' = take (lvl + 1) ?stk1" and l: "lvl + 1 \<le> length stk'"
        by auto
      have "take lvl (take (lvl + 1) stk') = take lvl (take (lvl + 1) ?stk1)" using t by simp
      then have "take lvl stk' = take lvl stk" using len by (simp add: min_def)
      moreover have "outline stk ((m, lvl) # ys) = Some stk'" using len par o by simp
      ultimately show ?thesis using l by auto
    qed
    moreover have "hierarchical_list st' = hierarchical_list st @ ((m, lvl) # ys)"
      using ys by simp
    ultimately show ?thesis unfolding appends_outline_def by blast
  qed
next
  case (3 depth d lvl visited st)
  then show ?case by (simp add: appends_outline_refl)
next
  case (4 depth d dep_id deps lvl visited st)
  show ?case
  proof (cases "d dep_id")
    case None
    with "4.prems"(2) have r: "add_dependencies depth d deps lvl visited st = Some st'" by simp
    from "4.IH"(1)[OF None "4.prems"(1) r] show ?thesis
      unfolding appends_outline_def by auto
  next
    case (Some dep_mod)
    show ?thesis
    proof (cases "dep_id |\<notin>| visited")
      case False
      with "4.prems"(2) Some have r: "add_dependencies depth d deps lvl visited st = Some st'"
        by simp
      from "4.IH"(4)[OF Some False "4.prems"(1) r] show ?thesis
        unfolding appends_outline_def by auto
    next
      case True
      have key: "mod_id dep_mod = dep_id" using "4.prems"(1) Some by (simp add: dict_keyed_def)
      from "4.prems"(2) Some True
      obtain st1 where st1: "add_mod_with_dependencies depth d dep_mod lvl visited st = Some st1"
        and rest: "add_dependencies depth d deps lvl visited st1 = Some st'"
        by (auto split: option.splits)
      from "4.IH"(2)[OF Some True "4.prems"(1) st1]
      obtain ys1 where ys1: "hierarchical_list st1 = hierarchical_list st @ ys1"
        and o1: "\<And>stk. lvl \<le> length stk
               \<Longrightarrow> lvl = 0 \<or> mod_id dep_mod \<in> set (mod_dependencies (stk ! (lvl - 1)))
               \<Longrightarrow> \<exists>stk'. outline stk ys1 = Some stk' \<and> take lvl stk' = take lvl stk
                     \<and> lvl \<le> length stk'"
        unfolding appends_outline_def by auto
      from "4.IH"(3)[OF Some True st1 "4.prems"(1) rest]
      obtain ys2 where ys2: "hierarchical_list st' = hierarchical_list st1 @ ys2"
        and o2: "\<And>stk. lvl \<le> length stk \<Longrightarrow> 0 < lvl
               \<Longrightarrow> set deps \<subseteq> set (mod_dependencies (stk ! (lvl - 1)))
               \<Longrightarrow> \<exists>stk'. outline stk ys2 = Some stk' \<and> take lvl stk' = take lvl stk
                     \<and> lvl \<le> length stk'"
        unfolding appends_outline_def by auto
      have "\<exists>stk'. outline stk (ys1 @ ys2) = Some stk' \<and> take lvl stk' = take lvl stk
              \<and> lvl \<le> length stk'"
        if len: "lvl \<le> length stk" and pos: "0 < lvl"
          and sub: "set (dep_id # deps) \<subseteq> set (mod_dependencies (stk ! (lvl - 1)))" for stk
      proof -
        from o1[OF len] sub key
        obtain stk1 where a: "outline stk ys1 = Some stk1" and t1: "take lvl stk1 = take lvl stk"
          and l1: "lvl \<le> length stk1" by auto
        have "stk1 ! (lvl - 1) = take lvl stk1 ! (lvl - 1)" using pos by simp
        also have "\<dots> = stk ! (lvl - 1)" unfolding t1 using pos by simp
        finally have same: "stk1 ! (lvl - 1) = stk ! (lvl - 1)" .
        from o2[OF l1 pos] sub same
        obtain stk2 where b: "outline stk1 ys2 = Some stk2" and t2: "take lvl stk2 = take lvl stk1"
          and l2: "lvl \<le> length stk2" by auto
        from a b have "outline stk (ys1 @ ys2) = Some stk2" by (simp add: outline_append)
        with t1 t2 l2 show ?thesis by auto
      qed
      moreover have "hierarchical_list st' = hierarchical_list st @ (ys1 @ ys2)"
        using ys1 ys2 by simp
      ultimately show ?thesis unfolding appends_outline_def by blast
    qed
  qed
qed

text \<open>A call from one of the two loops of the function, at level 0.\<close>

lemma top_outline:
  assumes "add_mod_with_dependencies depth (mods_dict mods) m 0 {||} st = Some st'"
    and "outline [] (hierarchical_list st) \<noteq> None"
  shows "outline [] (hierarchical_list st') \<noteq> None"
proof -
  from assms(2) obtain stk where s: "outline [] (hierarchical_list st) = Some stk" by auto
  from walk_outline(1)[OF dict_keyed_mods_dict assms(1)]
  obtain ys where ys: "hierarchical_list st' = hierarchical_list st @ ys"
    and o: "\<And>stk. \<exists>stk'. outline stk ys = Some stk'"
    unfolding appends_outline_def by auto
  from o[of stk] obtain stk' where "outline stk ys = Some stk'" by blast
  with s ys show ?thesis by (simp add: outline_append)
qed

lemma top_total:
  assumes "m \<in> set mods" and "length mods \<le> frames"
  shows "add_mod_with_dependencies frames (mods_dict mods) m 0 {||} st \<noteq> None"
proof -
  have "card (dom (mods_dict mods)) \<le> length mods"
    unfolding dom_mods_dict by (metis card_image_le card_length le_trans List.finite_set)
  with assms(2) have "card (dom (mods_dict mods) - fset {||}) \<le> frames" by simp
  moreover have "mod_id m \<in> dom (mods_dict mods)" using assms(1) by (simp add: dom_mods_dict)
  ultimately show ?thesis
    by (intro walk_total(1)) (simp_all add: dict_keyed_mods_dict dom_mods_dict)
qed

lemma top_step:
  assumes m: "m \<in> set mods" and fr: "length mods \<le> frames" and inv: "loop_inv mods st"
  shows "\<exists>st'. add_mod_with_dependencies frames (mods_dict mods) m 0 {||} st = Some st'
           \<and> loop_inv mods st'
           \<and> fset (processed_mods st) \<subseteq> fset (processed_mods st')
           \<and> mod_id m |\<in>| processed_mods st'"
proof -
  from top_total[OF m fr, of st]
  obtain st' where st': "add_mod_with_dependencies frames (mods_dict mods) m 0 {||} st = Some st'"
    by auto
  from inv have b: "bhl_inv (set mods) st" and o: "outline [] (hierarchical_list st) \<noteq> None"
    by (simp_all add: loop_inv_def)
  from walk_inv(1)[OF b m ran_mods_dict st']
  have "bhl_inv (set mods) st'" "fset (processed_mods st) \<subseteq> fset (processed_mods st')"
    "mod_id m |\<in>| processed_mods st'" by auto
  moreover from top_outline[OF st' o] have "outline [] (hierarchical_list st') \<noteq> None" .
  ultimately show ?thesis using st' by (simp add: loop_inv_def)
qed

lemma add_roots_ok:
  "set ms \<subseteq> set mods \<Longrightarrow> length mods \<le> frames \<Longrightarrow> loop_inv mods st \<Longrightarrow>
   \<exists>st'. add_roots frames (mods_dict mods) ms st = Some st' \<and> loop_inv mods st'"
proof (induction ms arbitrary: st)
  case Nil
  then show ?case by simp
next
  case (Cons m ms)
  from Cons.prems(1) have m: "m \<in> set mods" and ms: "set ms \<subseteq> set mods" by auto
  from top_step[OF m Cons.prems(2,3)]
  obtain st1 where st1: "add_mod_with_dependencies frames (mods_dict mods) m 0 {||} st = Some st1"
    and inv1: "loop_inv mods st1" by blast
  from Cons.IH[OF ms Cons.prems(2) inv1]
  obtain st' where "add_roots frames (mods_dict mods) ms st1 = Some st'" "loop_inv mods st'"
    by blast
  with st1 show ?case by simp
qed

lemma add_unprocessed_ok:
  "set ms \<subseteq> set mods \<Longrightarrow> length mods \<le> frames \<Longrightarrow> loop_inv mods st \<Longrightarrow>
   \<exists>st'. add_unprocessed frames (mods_dict mods) ms st = Some st' \<and> loop_inv mods st'
     \<and> fset (processed_mods st) \<subseteq> fset (processed_mods st')
     \<and> mod_id ` set ms \<subseteq> fset (processed_mods st')"
proof (induction ms arbitrary: st)
  case Nil
  then show ?case by simp
next
  case (Cons m ms)
  from Cons.prems(1) have m: "m \<in> set mods" and ms: "set ms \<subseteq> set mods" by auto
  show ?case
  proof (cases "mod_id m |\<notin>| processed_mods st")
    case False
    from Cons.IH[OF ms Cons.prems(2,3)]
    obtain st' where "add_unprocessed frames (mods_dict mods) ms st = Some st'"
      "loop_inv mods st'" "fset (processed_mods st) \<subseteq> fset (processed_mods st')"
      "mod_id ` set ms \<subseteq> fset (processed_mods st')" by blast
    with False show ?thesis by auto
  next
    case True
    from top_step[OF m Cons.prems(2,3)]
    obtain st1 where st1: "add_mod_with_dependencies frames (mods_dict mods) m 0 {||} st = Some st1"
      and inv1: "loop_inv mods st1"
      and mono: "fset (processed_mods st) \<subseteq> fset (processed_mods st1)"
      and mp: "mod_id m |\<in>| processed_mods st1" by blast
    from Cons.IH[OF ms Cons.prems(2) inv1]
    obtain st' where "add_unprocessed frames (mods_dict mods) ms st1 = Some st'"
      "loop_inv mods st'" "fset (processed_mods st1) \<subseteq> fset (processed_mods st')"
      "mod_id ` set ms \<subseteq> fset (processed_mods st')" by blast
    with st1 mono mp True show ?thesis by auto
  qed
qed

text \<open>With as many frames as the repository has records, the function returns.\<close>

lemma bhl_returns:
  assumes fr: "length mods \<le> frames"
  shows "\<exists>out. build_hierarchical_list frames mods = Some out
     \<and> distinct (map (mod_id \<circ> fst) out)
     \<and> set (map (mod_id \<circ> fst) out) = mod_id ` set mods
     \<and> fst ` set out \<subseteq> set mods
     \<and> outline [] out \<noteq> None"
proof -
  let ?st0 = "\<lparr>hierarchical_list = [], processed_mods = {||}\<rparr>"
  have inv0: "loop_inv mods ?st0" by (simp add: loop_inv_def bhl_inv_def)
  have "set (root_mods mods) \<subseteq> set mods" by (auto simp: root_mods_def)
  from add_roots_ok[OF this fr inv0]
  obtain st1 where r1: "add_roots frames (mods_dict mods) (root_mods mods) ?st0 = Some st1"
    and inv1: "loop_inv mods st1" by blast
  from add_unprocessed_ok[OF subset_refl fr inv1]
  obtain st2 where r2: "add_unprocessed frames (mods_dict mods) mods st1 = Some st2"
    and inv2: "loop_inv mods st2"
    and cover: "mod_id ` set mods \<subseteq> fset (processed_mods st2)" by blast
  have out: "build_hierarchical_list frames mods = Some (hierarchical_list st2)"
    using r1 r2 by (simp add: build_hierarchical_list_def)
  have ids: "set (map (mod_id \<circ> fst) (hierarchical_list st2)) = fset (processed_mods st2)"
    and recs: "fst ` set (hierarchical_list st2) \<subseteq> set mods"
    and dist: "distinct (map (mod_id \<circ> fst) (hierarchical_list st2))"
    and ol: "outline [] (hierarchical_list st2) \<noteq> None"
    using inv2 by (simp_all add: loop_inv_def bhl_inv_def)
  have "set (map (mod_id \<circ> fst) (hierarchical_list st2)) \<subseteq> mod_id ` set mods"
    using recs by auto
  with ids cover have "set (map (mod_id \<circ> fst) (hierarchical_list st2)) = mod_id ` set mods"
    by auto
  with out dist recs ol show ?thesis by blast
qed

text \<open>With fewer frames the function raises \<open>RecursionError\<close> or returns the same list.\<close>

lemma bhl_frames:
  "build_hierarchical_list frames mods = None
   \<or> build_hierarchical_list frames mods = build_hierarchical_list (length mods) mods"
proof (cases "build_hierarchical_list frames mods")
  case None
  then show ?thesis by simp
next
  case (Some out)
  show ?thesis
  proof (cases "frames \<le> length mods")
    case True
    then obtain k where k: "length mods = frames + k" by (auto simp: le_iff_add)
    from build_hierarchical_list_deeper[OF Some, of k] Some k show ?thesis by simp
  next
    case False
    then obtain k where k: "frames = length mods + k" by (metis le_iff_add nat_le_linear)
    from bhl_returns[of mods "length mods"]
    obtain out' where o: "build_hierarchical_list (length mods) mods = Some out'" by auto
    from build_hierarchical_list_deeper[OF o, of k] k o show ?thesis by simp
  qed
qed

text \<open>
  Claim C2, as the code has it. The walk copies \<open>visited\<close> down each call, and it also
  keeps \<open>processed_mods\<close>, one set shared by all calls, and returns at once from a call
  on an id in either set. So the walk never loops, cycles included. When the
  interpreter allows as many nested calls as the repository has records, the function
  returns a list that holds every id of the repository exactly once (its records are
  records of the repository) and that is an outline: an entry of level \<open>l + 1\<close> is
  listed as a dependency by the last entry of level \<open>l\<close> above it. When the interpreter
  allows fewer nested calls, the function returns that same list, or it ends with
  \<open>RecursionError\<close>.
\<close>

theorem build_hierarchical_list_total:
  "(\<exists>out. build_hierarchical_list (length mods + k) mods = Some out
       \<and> distinct (map (mod_id \<circ> fst) out)
       \<and> set (map (mod_id \<circ> fst) out) = mod_id ` set mods
       \<and> fst ` set out \<subseteq> set mods
       \<and> outline [] out \<noteq> None)
   \<and> (build_hierarchical_list frames mods = None
        \<or> build_hierarchical_list frames mods = build_hierarchical_list (length mods) mods)"
  using bhl_returns[of mods "length mods + k"] bhl_frames[of frames mods] by simp

text \<open>
  Claim C2 as stated fails: a diamond-shaped dependency is not emitted once per
  distinct path. In \<open>example_diamond\<close>, D is required by B and by C, both required by
  the root A; the list has D once, under B, and nothing under C.
\<close>

theorem diamond_dependency_emitted_once:
  "map (\<lambda>m. (mod_id m, mod_dependencies m)) example_diamond
     = [(''A'', [''B'', ''C'']), (''B'', [''D'']), (''C'', [''D'']), (''D'', [])]
   \<and> map_option (map (\<lambda>(m, l). (mod_id m, l))) (build_hierarchical_list 4 example_diamond)
       = Some [(''A'', 0), (''B'', 1), (''D'', 2), (''C'', 1)]"
  by (simp add: example_diamond_def build_hierarchical_list_def
      root_mods_def dependency_mods_def mods_dict_def
      mod_dependencies_def numeral_eq_Suc)

text \<open>The recursion is as deep as the longest path: the chain of three records needs
  three nested calls, and with two the function ends with \<open>RecursionError\<close>.\<close>

lemma chain_needs_three_frames:
  "build_hierarchical_list 2 example_chain = None"
  "map_option (map (\<lambda>(m, l). (mod_id m, l))) (build_hierarchical_list 3 example_chain)
     = Some [(''A'', 0), (''B'', 1), (''C'', 2)]"
  by (simp_all add: example_chain_def build_hierarchical_list_def
      root_mods_def dependency_mods_def mods_dict_def
      mod_dependencies_def numeral_eq_Suc)

subsection \<open>The downloader: the completed count\<close>

lemmas regex_eval = start_match_def is_success_def is_error_def match_digits_def is_digit_def
  ascii_lower_def












lemma ex_lines:
  "start_match ''downloading item 123'' = Some ''123''"
  "\<not> is_success ''downloading item 123''" "\<not> is_error ''downloading item 123''"
  "is_error ''Error''" "\<not> is_success ''Error''" "start_match ''Error'' = None"
  "is_success ''Success. Downloaded item 123''"
  by (simp_all add: regex_eval)

lemma ex_mod: "has_app_id example_mod" "mod_id example_mod = ''123''"
  by (simp_all add: example_mod_def has_app_id_def)




lemma mods_dict_single: "mods_dict [m] i = (if i = mod_id m then Some m else None)"
  by (simp add: mods_dict_def)

lemma parse_line_start:
  "start_match l = Some i \<Longrightarrow> mods_dict valid_mods i = Some m \<Longrightarrow> \<not> is_success l
     \<Longrightarrow> \<not> is_error l \<Longrightarrow> parse_line valid_mods s l = s\<lparr>current_mod_info := Some m\<rparr>"
  by (simp add: parse_line_def bind_start_def)

lemma parse_line_bound_error:
  "current_mod_info s = Some m \<Longrightarrow> start_match l = None \<Longrightarrow> is_error l \<Longrightarrow> \<not> is_success l
     \<Longrightarrow> parse_line valid_mods s l
           = s\<lparr>completed_downloads := completed_downloads s + 1,
               run_failed_ids := run_failed_ids s @ [mod_id m],
               run_failed_details := run_failed_details s @
                 [\<lparr>fd_id = mod_id m, fd_title = mod_title m, fd_reason = ''Download failed''\<rparr>],
               current_mod_info := None\<rparr>"
  by (simp add: parse_line_def bind_start_def)

text \<open>The count of the bound branch has no upper limit: a batch of one mod that is
  started and fails twice gives \<open>completed = 2\<close>.\<close>

lemma download_mods_counts_a_mod_twice:
  "completed (download_mods
      \<lparr>steamcmd_available = True,
       run = Returned ProcessExited
               [''downloading item 123'', ''Error'', ''downloading item 123'', ''Error''] 1\<rparr>
      [example_mod]) = 2"
proof -
  have d: "mods_dict [example_mod] ''123'' = Some example_mod"
    by (simp add: mods_dict_single ex_mod)
  note st = parse_line_start[OF ex_lines(1) d ex_lines(2) ex_lines(3)]
  note er = parse_line_bound_error[OF _ ex_lines(6) ex_lines(4) ex_lines(5)]
  have "completed_downloads (foldl (parse_line [example_mod]) monitor_init
          [''downloading item 123'', ''Error'', ''downloading item 123'', ''Error'']) = 2"
    by (simp add: st er monitor_init_def)
  then show ?thesis
    using ex_mod by (simp add: download_mods_def execute_steamcmd_with_monitoring_def
        adjust_completion_def Let_def)
qed

subsection \<open>The downloader: the parse loop\<close>

text \<open>
  Claim C8. For a batch of exactly one mod with the id 123 and a resolved app id, when
  the loop handles a line that the start pattern matches with the id 123 (and that is
  neither a success nor an error line), directly followed by a line that the error
  pattern matches (and the success pattern does not), the result has
  \<open>failed_ids = ["123"]\<close>, \<open>completed = 1\<close>, \<open>successful = 0\<close> and one failure detail,
  for that mod. The witness has the lines \<open>downloading item 123\<close> and \<open>Error\<close>.
\<close>

theorem start_then_error_fails_the_mod:
  "mod_id m = ''123'' \<and> has_app_id m \<and> steamcmd_available env
   \<and> run env = Returned how [l1, l2] return_code
   \<and> start_match l1 = Some ''123'' \<and> \<not> is_success l1 \<and> \<not> is_error l1
   \<and> is_error l2 \<and> \<not> is_success l2
   \<longrightarrow> download_mods env [m]
         = \<lparr>completed = 1, successful = 0, failed_ids = [''123''],
            failed_details = [\<lparr>fd_id = ''123'', fd_title = mod_title m,
                                fd_reason = ''Download failed''\<rparr>]\<rparr>"
proof (intro impI, elim conjE)
  assume m: "mod_id m = ''123''" "has_app_id m" and env: "steamcmd_available env"
    "run env = Returned how [l1, l2] return_code"
    and l1: "start_match l1 = Some ''123''" "\<not> is_success l1" "\<not> is_error l1"
    and l2: "is_error l2" "\<not> is_success l2"
  let ?s1 = "monitor_init\<lparr>current_mod_info := Some m\<rparr>"
  have s1: "parse_line [m] monitor_init l1 = ?s1"
    using m l1 by (simp add: parse_line_def bind_start_def mods_dict_single)
  have b: "bind_start (mods_dict [m]) l2 ?s1 = ?s1"
    by (auto simp: bind_start_def mods_dict_single split: option.splits)
  have s2: "parse_line [m] ?s1 l2
              = \<lparr>completed_downloads = 1, successful_downloads = 0, current_mod_info = None,
                 run_failed_ids = [''123''],
                 run_failed_details = [\<lparr>fd_id = ''123'', fd_title = mod_title m,
                                          fd_reason = ''Download failed''\<rparr>]\<rparr>"
    using m l2 unfolding parse_line_def b by (simp add: monitor_init_def)
  show "download_mods env [m]
         = \<lparr>completed = 1, successful = 0, failed_ids = [''123''],
            failed_details = [\<lparr>fd_id = ''123'', fd_title = mod_title m,
                                fd_reason = ''Download failed''\<rparr>]\<rparr>"
    using m env by (simp add: download_mods_def execute_steamcmd_with_monitoring_def s1 s2
        adjust_completion_def)
qed

theorem start_then_error_fails_the_mod_witness:
  "mod_id example_mod = ''123'' \<and> has_app_id example_mod
   \<and> start_match ''downloading item 123'' = Some ''123''
   \<and> \<not> is_success ''downloading item 123'' \<and> \<not> is_error ''downloading item 123''
   \<and> is_error ''Error'' \<and> \<not> is_success ''Error''
   \<and> download_mods
        \<lparr>steamcmd_available = True,
         run = Returned ProcessExited [''downloading item 123'', ''Error''] 0\<rparr> [example_mod]
       = \<lparr>completed = 1, successful = 0, failed_ids = [''123''],
          failed_details = [\<lparr>fd_id = ''123'', fd_title = ''Some mod'',
                              fd_reason = ''Download failed''\<rparr>]\<rparr>"
  using start_then_error_fails_the_mod [of example_mod
      "\<lparr>steamcmd_available = True,
        run = Returned ProcessExited [''downloading item 123'', ''Error''] 0\<rparr>"
      ProcessExited "''downloading item 123''" "''Error''" 0]
    ex_lines ex_mod
  by (simp add: mod_title_def example_mod_def)

text \<open>
  Claim C9. When no current mod is bound (none when the line arrives, and the line
  binds none), a line that the success pattern or the error pattern matches, handled
  while fewer completions than valid mods are recorded, increments both
  \<open>completed_downloads\<close> and \<open>successful_downloads\<close> and changes nothing else: nothing
  is appended to the failure lists, for an error line as for a success line. The
  witness is an error line, counted as a success in the result of \<open>download_mods\<close>.
\<close>

theorem unbound_completion_counts_as_success:
  "current_mod_info s = None
   \<and> (\<forall>i. start_match line = Some i \<longrightarrow> mods_dict valid_mods i = None)
   \<and> (is_success line \<or> is_error line)
   \<and> completed_downloads s < length valid_mods
   \<longrightarrow> parse_line valid_mods s line
         = s\<lparr>completed_downloads := completed_downloads s + 1,
             successful_downloads := successful_downloads s + 1\<rparr>
       \<and> run_failed_ids (parse_line valid_mods s line) = run_failed_ids s
       \<and> run_failed_details (parse_line valid_mods s line) = run_failed_details s"
proof (intro impI, elim conjE)
  assume a: "current_mod_info s = None"
    "\<forall>i. start_match line = Some i \<longrightarrow> mods_dict valid_mods i = None"
    "is_success line \<or> is_error line" "completed_downloads s < length valid_mods"
  have b: "bind_start (mods_dict valid_mods) line s = s"
    using a(2) by (auto simp: bind_start_def split: option.splits)
  have "parse_line valid_mods s line
         = s\<lparr>completed_downloads := completed_downloads s + 1,
             successful_downloads := successful_downloads s + 1\<rparr>"
    unfolding parse_line_def b using a by (simp add: Let_def)
  then show "parse_line valid_mods s line
         = s\<lparr>completed_downloads := completed_downloads s + 1,
             successful_downloads := successful_downloads s + 1\<rparr>
       \<and> run_failed_ids (parse_line valid_mods s line) = run_failed_ids s
       \<and> run_failed_details (parse_line valid_mods s line) = run_failed_details s"
    by simp
qed

lemma ex_error_line:
  "start_match ''ERROR! Download item 123 failed (Failure).'' = None"
  "is_error ''ERROR! Download item 123 failed (Failure).''"
  "\<not> is_success ''ERROR! Download item 123 failed (Failure).''"
  by (simp_all add: regex_eval)

theorem unbound_completion_counts_as_success_witness:
  "current_mod_info monitor_init = None
   \<and> start_match ''ERROR! Download item 123 failed (Failure).'' = None
   \<and> is_error ''ERROR! Download item 123 failed (Failure).''
   \<and> \<not> is_success ''ERROR! Download item 123 failed (Failure).''
   \<and> completed_downloads monitor_init < length [example_mod]
   \<and> parse_line [example_mod] monitor_init ''ERROR! Download item 123 failed (Failure).''
       = \<lparr>completed_downloads = 1, successful_downloads = 1, current_mod_info = None,
          run_failed_ids = [], run_failed_details = []\<rparr>
   \<and> download_mods
        \<lparr>steamcmd_available = True,
         run = Returned ProcessExited [''ERROR! Download item 123 failed (Failure).''] 1\<rparr>
        [example_mod]
       = \<lparr>completed = 1, successful = 1, failed_ids = [], failed_details = []\<rparr>"
proof -
  have p: "parse_line [example_mod] monitor_init ''ERROR! Download item 123 failed (Failure).''
       = \<lparr>completed_downloads = 1, successful_downloads = 1, current_mod_info = None,
          run_failed_ids = [], run_failed_details = []\<rparr>"
    using unbound_completion_counts_as_success [of monitor_init
        "''ERROR! Download item 123 failed (Failure).''" "[example_mod]"] ex_error_line
    by (simp add: monitor_init_def)
  have "download_mods
        \<lparr>steamcmd_available = True,
         run = Returned ProcessExited [''ERROR! Download item 123 failed (Failure).''] 1\<rparr>
        [example_mod]
       = \<lparr>completed = 1, successful = 1, failed_ids = [], failed_details = []\<rparr>"
    using ex_mod by (simp add: download_mods_def execute_steamcmd_with_monitoring_def p
        adjust_completion_def)
  with p ex_error_line show ?thesis by (simp add: monitor_init_def)
qed



subsection \<open>The metadata resolver\<close>

lemma fetch_mod_info_returns: "\<exists>r. fetch_mod_info w mid = Inr r"
  by (auto simp: fetch_mod_info_def split: sum.splits py_exn.splits)

lemma py_get_obj: "py_get details k d = Inr v \<Longrightarrow> \<exists>kvs. details = JObj kvs"
  by (cases details) auto

lemma py_get_not_obj:
  "(\<forall>kvs. x \<noteq> JObj kvs) \<Longrightarrow> \<exists>msg. py_get x k d = Inl (OtherException msg)"
  by (cases x) auto

lemma py_index0_cases:
  "truthy files \<Longrightarrow>
     (\<exists>kvs rest. files = JArr (JObj kvs # rest))
     \<or> (\<exists>msg. py_index0 files = Inl (OtherException msg))
     \<or> (\<exists>x. py_index0 files = Inr x \<and> (\<forall>kvs. x \<noteq> JObj kvs))"
proof (cases files)
  case (JArr xs)
  assume "truthy files"
  with JArr obtain x rest where xs: "xs = x # rest" by (cases xs) auto
  show ?thesis using JArr xs by (cases x) auto
next
  case (JStr s)
  assume "truthy files"
  with JStr obtain c cs where "s = c # cs" by (cases s) auto
  with JStr show ?thesis by auto
qed auto

text \<open>Lines 18-28 on an answer of the API.\<close>

lemma api_details_raised:
  "post_details w mid = Inl e \<Longrightarrow> api_details w mid = Inl e"
  by (simp add: api_details_def raise_or_def)

lemma api_details_malformed:
  assumes p: "post_details w mid = Inr data" and m: "response_details data = None"
  shows "\<exists>msg. api_details w mid = Inl (OtherException msg)
            \<or> api_details w mid = Inr (Inl (error_info mid msg))"
proof (cases data)
  case (JObj outer)
  show ?thesis
  proof (cases "map_of outer ''response''")
    case None
    with p JObj show ?thesis by (auto simp: api_details_def raise_or_def dict_get_def)
  next
    case (Some r)
    show ?thesis
    proof (cases "\<exists>resp. r = JObj resp")
      case False
      then have "\<exists>msg. py_get r ''publishedfiledetails'' JNull = Inl (OtherException msg)"
        by (intro py_get_not_obj) simp
      with p JObj Some show ?thesis by (auto simp: api_details_def raise_or_def dict_get_def)
    next
      case True
      then obtain resp where r: "r = JObj resp" by blast
      let ?files = "dict_get resp ''publishedfiledetails'' JNull"
      show ?thesis
      proof (cases "truthy ?files")
        case False
        with p JObj Some r show ?thesis by (auto simp: api_details_def raise_or_def dict_get_def)
      next
        case True
        then obtain files where f: "map_of resp ''publishedfiledetails'' = Some files"
          and ff: "?files = files"
          by (cases "map_of resp ''publishedfiledetails''") (auto simp: dict_get_def)
        have a: "api_details w mid
                   = raise_or (py_index0 files) (\<lambda>details.
                     raise_or (py_get details ''result'' JNull) (\<lambda>result.
                       if \<not> py_eq_one result
                       then Inr (Inl (error_info mid
                              (''API result not OK (result code: '' @ py_str w result @ '')'')))
                       else Inr (Inr details)))"
          using p JObj Some r f True ff by (simp add: api_details_def raise_or_def dict_get_def)
        from m JObj Some r f have nd: "\<not> (\<exists>kvs rest. files = JArr (JObj kvs # rest))"
          by (auto simp: response_details_def)
        from py_index0_cases[of files] True ff nd
        consider msg where "py_index0 files = Inl (OtherException msg)"
          | x where "py_index0 files = Inr x" "\<forall>kvs. x \<noteq> JObj kvs"
          by auto
        then show ?thesis
        proof cases
          case 1
          then show ?thesis unfolding a by (auto simp: raise_or_def)
        next
          case 2
          from py_get_not_obj[OF 2(2), of "''result''" JNull]
          obtain msg where "py_get x ''result'' JNull = Inl (OtherException msg)" by blast
          with 2(1) show ?thesis unfolding a by (auto simp: raise_or_def)
        qed
      qed
    qed
  qed
next
  case JNull
  with p show ?thesis by (auto simp: api_details_def raise_or_def)
next
  case (JBool b)
  with p show ?thesis by (auto simp: api_details_def raise_or_def)
next
  case (JNum n)
  with p show ?thesis by (auto simp: api_details_def raise_or_def)
next
  case (JStr s)
  with p show ?thesis by (auto simp: api_details_def raise_or_def)
next
  case (JArr xs)
  with p show ?thesis by (auto simp: api_details_def raise_or_def)
qed

lemma response_detailsD:
  assumes "response_details data = Some kvs"
  shows "\<exists>outer resp rest. data = JObj outer \<and> map_of outer ''response'' = Some (JObj resp)
           \<and> map_of resp ''publishedfiledetails'' = Some (JArr (JObj kvs # rest))"
  using assms
  by (auto simp: response_details_def split: json.splits option.splits list.splits)

lemma api_details_wellformed:
  assumes p: "post_details w mid = Inr data" and m: "response_details data = Some kvs"
  shows "api_details w mid
           = (if py_eq_one (dict_get kvs ''result'' JNull)
              then Inr (Inr (JObj kvs))
              else Inr (Inl (error_info mid
                     (''API result not OK (result code: ''
                        @ py_str w (dict_get kvs ''result'' JNull) @ '')''))))"
proof -
  from response_detailsD[OF m] obtain outer resp rest where
    "data = JObj outer" "map_of outer ''response'' = Some (JObj resp)"
    "map_of resp ''publishedfiledetails'' = Some (JArr (JObj kvs # rest))" by blast
  with p show ?thesis by (simp add: api_details_def raise_or_def dict_get_def)
qed


lemma fetch_of_raise:
  "fetch_mod_info_body w mid = Inl e \<Longrightarrow> \<exists>msg. fetch_mod_info w mid = Inr (error_info mid msg)"
  by (cases e) (auto simp: fetch_mod_info_def)

lemma body_of_api_raise:
  "api_details w mid = Inl e \<Longrightarrow> fetch_mod_info_body w mid = Inl e"
  by (simp add: fetch_mod_info_body_def raise_or_def)

lemma body_of_api_early:
  "api_details w mid = Inr (Inl early) \<Longrightarrow> fetch_mod_info_body w mid = Inr early"
  by (simp add: fetch_mod_info_body_def raise_or_def)

lemma fetch_network_error:
  assumes "post_details w mid = Inl (RequestException msg)"
  shows "fetch_mod_info w mid = Inr (error_info mid (''Network error: '' @ msg))"
  using body_of_api_raise[OF api_details_raised[OF assms]] by (simp add: fetch_mod_info_def)

lemma fetch_post_raised:
  assumes "post_details w mid = Inl e"
  shows "\<exists>msg. fetch_mod_info w mid = Inr (error_info mid msg)"
  using fetch_of_raise[OF body_of_api_raise[OF api_details_raised[OF assms]]] .

lemma fetch_malformed:
  assumes "post_details w mid = Inr data" and "response_details data = None"
  shows "\<exists>msg. fetch_mod_info w mid = Inr (error_info mid msg)"
proof -
  from api_details_malformed[OF assms] obtain msg where
    "api_details w mid = Inl (OtherException msg)
       \<or> api_details w mid = Inr (Inl (error_info mid msg))" by blast
  then show ?thesis
  proof
    assume "api_details w mid = Inl (OtherException msg)"
    from fetch_of_raise[OF body_of_api_raise[OF this]] show ?thesis .
  next
    assume "api_details w mid = Inr (Inl (error_info mid msg))"
    from body_of_api_early[OF this] show ?thesis by (auto simp: fetch_mod_info_def)
  qed
qed

lemma fetch_refused:
  assumes p: "post_details w mid = Inr data" and m: "response_details data = Some kvs"
    and r: "map_of kvs ''result'' \<noteq> Some (JNum 1)" "map_of kvs ''result'' \<noteq> Some (JBool True)"
  shows "fetch_mod_info w mid
           = Inr (error_info mid (''API result not OK (result code: ''
                     @ py_str w (dict_get kvs ''result'' JNull) @ '')''))"
proof -
  from r have "\<not> py_eq_one (dict_get kvs ''result'' JNull)"
    by (auto simp: py_eq_one_def dict_get_def split: option.splits)
  with api_details_wellformed[OF p m]
  have "api_details w mid
          = Inr (Inl (error_info mid (''API result not OK (result code: ''
                     @ py_str w (dict_get kvs ''result'' JNull) @ '')'')))" by simp
  from body_of_api_early[OF this] show ?thesis by (simp add: fetch_mod_info_def)
qed

lemma body_accepted:
  assumes p: "post_details w mid = Inr data" and m: "response_details data = Some kvs"
    and r: "map_of kvs ''result'' = Some (JNum 1) \<or> map_of kvs ''result'' = Some (JBool True)"
  shows "fetch_mod_info_body w mid
           = raise_or (if truthy (dict_get kvs ''description'' (JStr []))
                       then html_unescape w (dict_get kvs ''description'' (JStr []))
                       else Inr (dict_get kvs ''description'' (JStr [])))
               (\<lambda>description.
                  Inr [(''title'', dict_get kvs ''title'' (JStr ''Unknown'')),
                       (''app_id'', dict_get kvs ''consumer_app_id'' JNull),
                       (''preview_url'', dict_get kvs ''preview_url'' (JStr [])),
                       (''file_size'', dict_get kvs ''file_size'' (JNum 0)),
                       (''description'', description),
                       (''dependencies'', JArr (map JStr (scrape_dependencies w mid)))])"
proof -
  from r have "py_eq_one (dict_get kvs ''result'' JNull)"
    by (auto simp: py_eq_one_def dict_get_def)
  with api_details_wellformed[OF p m]
  have "api_details w mid = Inr (Inr (JObj kvs))" by simp
  then show ?thesis
    by (simp add: fetch_mod_info_body_def details_description_def raise_or_def Let_def)
qed

text \<open>The inner \<open>try\<close> on the answers of the page request and of the parsers.\<close>

lemma scrape_page_raised:
  "get_page w (workshop_url mid) = Inl e \<Longrightarrow> scrape_dependencies w mid = []"
  by (simp add: scrape_dependencies_def scrape_try_def raise_or_def)

lemma scrape_parser_raised:
  assumes "get_page w (workshop_url mid) = Inr text"
    and "(soup_lxml w text = Inl e \<and> (\<forall>m. e \<noteq> FeatureNotFound m))
         \<or> ((\<exists>m. soup_lxml w text = Inl (FeatureNotFound m)) \<and> soup_html_parser w text = Inl e)"
  shows "scrape_dependencies w mid = []"
  using assms
  by (cases e) (auto simp: scrape_dependencies_def scrape_try_def raise_or_def)

lemma scrape_parsed:
  assumes "get_page w (workshop_url mid) = Inr text"
    and "soup_lxml w text = Inr soup
         \<or> ((\<exists>m. soup_lxml w text = Inl (FeatureNotFound m)) \<and> soup_html_parser w text = Inr soup)"
  shows "scrape_dependencies w mid
           = (case required_item_hrefs w soup of
                Inl e \<Rightarrow> []
              | Inr None \<Rightarrow> []
              | Inr (Some hrefs) \<Rightarrow> List.map_filter href_id hrefs)"
  using assms
  by (auto simp: scrape_dependencies_def scrape_try_def raise_or_def
      split: sum.splits option.splits)


lemma fetch_accepted:
  assumes p: "post_details w mid = Inr data" and m: "response_details data = Some kvs"
    and r: "map_of kvs ''result'' = Some (JNum 1) \<or> map_of kvs ''result'' = Some (JBool True)"
  shows "(\<forall>e. truthy (dict_get kvs ''description'' (JStr []))
               \<and> html_unescape w (dict_get kvs ''description'' (JStr [])) = Inl e \<longrightarrow>
            (\<exists>msg. fetch_mod_info w mid = Inr (error_info mid msg)))
       \<and> (\<forall>d. (if truthy (dict_get kvs ''description'' (JStr []))
                then html_unescape w (dict_get kvs ''description'' (JStr [])) = Inr d
                else d = dict_get kvs ''description'' (JStr [])) \<longrightarrow>
            fetch_mod_info w mid
              = Inr [(''title'', dict_get kvs ''title'' (JStr ''Unknown'')),
                     (''app_id'', dict_get kvs ''consumer_app_id'' JNull),
                     (''preview_url'', dict_get kvs ''preview_url'' (JStr [])),
                     (''file_size'', dict_get kvs ''file_size'' (JNum 0)),
                     (''description'', d),
                     (''dependencies'', JArr (map JStr (scrape_dependencies w mid)))])"
proof (intro conjI allI impI)
  fix e
  assume "truthy (dict_get kvs ''description'' (JStr []))
            \<and> html_unescape w (dict_get kvs ''description'' (JStr [])) = Inl e"
  with body_accepted[OF p m r] have "fetch_mod_info_body w mid = Inl e"
    by (simp add: raise_or_def)
  from fetch_of_raise[OF this]
  show "\<exists>msg. fetch_mod_info w mid = Inr (error_info mid msg)" .
next
  fix d
  assume "if truthy (dict_get kvs ''description'' (JStr []))
          then html_unescape w (dict_get kvs ''description'' (JStr [])) = Inr d
          else d = dict_get kvs ''description'' (JStr [])"
  with body_accepted[OF p m r]
  have "fetch_mod_info_body w mid
          = Inr [(''title'', dict_get kvs ''title'' (JStr ''Unknown'')),
                 (''app_id'', dict_get kvs ''consumer_app_id'' JNull),
                 (''preview_url'', dict_get kvs ''preview_url'' (JStr [])),
                 (''file_size'', dict_get kvs ''file_size'' (JNum 0)),
                 (''description'', d),
                 (''dependencies'', JArr (map JStr (scrape_dependencies w mid)))]"
    by (simp add: raise_or_def split: if_splits)
  then show "fetch_mod_info w mid
          = Inr [(''title'', dict_get kvs ''title'' (JStr ''Unknown'')),
                 (''app_id'', dict_get kvs ''consumer_app_id'' JNull),
                 (''preview_url'', dict_get kvs ''preview_url'' (JStr [])),
                 (''file_size'', dict_get kvs ''file_size'' (JNum 0)),
                 (''description'', d),
                 (''dependencies'', JArr (map JStr (scrape_dependencies w mid)))]"
    by (simp add: fetch_mod_info_def)
qed

lemma scrape_policy:
  "(\<forall>e. get_page w (workshop_url mid) = Inl e \<longrightarrow> scrape_dependencies w mid = [])
   \<and> (\<forall>text. get_page w (workshop_url mid) = Inr text \<longrightarrow>
         (\<forall>e. (soup_lxml w text = Inl e \<and> (\<forall>m. e \<noteq> FeatureNotFound m))
               \<or> ((\<exists>m. soup_lxml w text = Inl (FeatureNotFound m))
                   \<and> soup_html_parser w text = Inl e) \<longrightarrow>
            scrape_dependencies w mid = [])
       \<and> (\<forall>soup. soup_lxml w text = Inr soup
               \<or> ((\<exists>m. soup_lxml w text = Inl (FeatureNotFound m))
                   \<and> soup_html_parser w text = Inr soup) \<longrightarrow>
            (\<forall>e. required_item_hrefs w soup = Inl e \<longrightarrow> scrape_dependencies w mid = [])
          \<and> (required_item_hrefs w soup = Inr None \<longrightarrow> scrape_dependencies w mid = [])
          \<and> (\<forall>hrefs. required_item_hrefs w soup = Inr (Some hrefs) \<longrightarrow>
                scrape_dependencies w mid = List.map_filter href_id hrefs)))"
proof (intro conjI allI impI)
  fix e assume "get_page w (workshop_url mid) = Inl e"
  then show "scrape_dependencies w mid = []" by (rule scrape_page_raised)
next
  fix page e
  assume "get_page w (workshop_url mid) = Inr page"
    and "(soup_lxml w page = Inl e \<and> (\<forall>m. e \<noteq> FeatureNotFound m))
         \<or> ((\<exists>m. soup_lxml w page = Inl (FeatureNotFound m)) \<and> soup_html_parser w page = Inl e)"
  then show "scrape_dependencies w mid = []" by (rule scrape_parser_raised)
next
  fix page soup e
  assume "get_page w (workshop_url mid) = Inr page"
    and "soup_lxml w page = Inr soup
         \<or> ((\<exists>m. soup_lxml w page = Inl (FeatureNotFound m)) \<and> soup_html_parser w page = Inr soup)"
    and "required_item_hrefs w soup = Inl e"
  with scrape_parsed[of w mid page soup] show "scrape_dependencies w mid = []" by simp
next
  fix page soup
  assume "get_page w (workshop_url mid) = Inr page"
    and "soup_lxml w page = Inr soup
         \<or> ((\<exists>m. soup_lxml w page = Inl (FeatureNotFound m)) \<and> soup_html_parser w page = Inr soup)"
    and "required_item_hrefs w soup = Inr None"
  with scrape_parsed[of w mid page soup] show "scrape_dependencies w mid = []" by simp
next
  fix page soup hrefs
  assume "get_page w (workshop_url mid) = Inr page"
    and "soup_lxml w page = Inr soup
         \<or> ((\<exists>m. soup_lxml w page = Inl (FeatureNotFound m)) \<and> soup_html_parser w page = Inr soup)"
    and "required_item_hrefs w soup = Inr (Some hrefs)"
  with scrape_parsed[of w mid page soup]
  show "scrape_dependencies w mid = List.map_filter href_id hrefs" by simp
qed

lemma fetch_accepted_policy:
  "\<forall>data kvs. post_details w mid = Inr data \<and> response_details data = Some kvs
          \<and> (map_of kvs ''result'' = Some (JNum 1) \<or> map_of kvs ''result'' = Some (JBool True)) \<longrightarrow>
       (\<forall>e. truthy (dict_get kvs ''description'' (JStr [])) \<and> html_unescape w (dict_get kvs ''description'' (JStr [])) = Inl e \<longrightarrow>
           (\<exists>msg. fetch_mod_info w mid = Inr [(''title'', JStr (''Mod '' @ mid)), (''error'', JStr msg)]))
       \<and> (\<forall>d. (if truthy (dict_get kvs ''description'' (JStr []))
               then html_unescape w (dict_get kvs ''description'' (JStr [])) = Inr d
               else d = dict_get kvs ''description'' (JStr [])) \<longrightarrow>
           (\<exists>deps. fetch_mod_info w mid
                  = Inr [(''title'', dict_get kvs ''title'' (JStr ''Unknown'')),
                    (''app_id'', dict_get kvs ''consumer_app_id'' JNull),
                    (''preview_url'', dict_get kvs ''preview_url'' (JStr [])),
                    (''file_size'', dict_get kvs ''file_size'' (JNum 0)),
                    (''description'', d),
                    (''dependencies'', JArr (map JStr deps))]
                \<and> (\<forall>e. get_page w (workshop_url mid) = Inl e \<longrightarrow> deps = [])
                  \<and> (\<forall>page. get_page w (workshop_url mid) = Inr page \<longrightarrow>
                        (\<forall>e. (soup_lxml w page = Inl e \<and> (\<forall>m. e \<noteq> FeatureNotFound m))
                              \<or> ((\<exists>m. soup_lxml w page = Inl (FeatureNotFound m))
                                  \<and> soup_html_parser w page = Inl e) \<longrightarrow>
                           deps = [])
                      \<and> (\<forall>soup. soup_lxml w page = Inr soup
                              \<or> ((\<exists>m. soup_lxml w page = Inl (FeatureNotFound m))
                                  \<and> soup_html_parser w page = Inr soup) \<longrightarrow>
                           (\<forall>e. required_item_hrefs w soup = Inl e \<longrightarrow> deps = [])
                         \<and> (required_item_hrefs w soup = Inr None \<longrightarrow> deps = [])
                         \<and> (\<forall>hrefs. required_item_hrefs w soup = Inr (Some hrefs) \<longrightarrow>
                               deps = List.map_filter href_id hrefs)))))"
proof (intro allI impI, elim conjE)
  fix data kvs
  assume p: "post_details w mid = Inr data" and m: "response_details data = Some kvs"
    and r: "map_of kvs ''result'' = Some (JNum 1) \<or> map_of kvs ''result'' = Some (JBool True)"
  from fetch_accepted[OF p m r]
  have raised: "\<forall>e. truthy (dict_get kvs ''description'' (JStr [])) \<and> html_unescape w (dict_get kvs ''description'' (JStr [])) = Inl e \<longrightarrow>
          (\<exists>msg. fetch_mod_info w mid = Inr [(''title'', JStr (''Mod '' @ mid)), (''error'', JStr msg)])"
    and taken: "\<forall>d. (if truthy (dict_get kvs ''description'' (JStr []))
                then html_unescape w (dict_get kvs ''description'' (JStr [])) = Inr d
                else d = dict_get kvs ''description'' (JStr [])) \<longrightarrow>
      fetch_mod_info w mid
        = Inr [(''title'', dict_get kvs ''title'' (JStr ''Unknown'')),
               (''app_id'', dict_get kvs ''consumer_app_id'' JNull),
               (''preview_url'', dict_get kvs ''preview_url'' (JStr [])),
               (''file_size'', dict_get kvs ''file_size'' (JNum 0)),
               (''description'', d),
               (''dependencies'', JArr (map JStr (scrape_dependencies w mid)))]"
    unfolding error_info_def by blast+
  have "\<forall>d. (if truthy (dict_get kvs ''description'' (JStr []))
                then html_unescape w (dict_get kvs ''description'' (JStr [])) = Inr d
                else d = dict_get kvs ''description'' (JStr [])) \<longrightarrow>
      (\<exists>deps. fetch_mod_info w mid
                   = Inr [(''title'', dict_get kvs ''title'' (JStr ''Unknown'')),
                     (''app_id'', dict_get kvs ''consumer_app_id'' JNull),
                     (''preview_url'', dict_get kvs ''preview_url'' (JStr [])),
                     (''file_size'', dict_get kvs ''file_size'' (JNum 0)),
                     (''description'', d),
                     (''dependencies'', JArr (map JStr deps))]
                 \<and> (\<forall>e. get_page w (workshop_url mid) = Inl e \<longrightarrow> deps = [])
                   \<and> (\<forall>page. get_page w (workshop_url mid) = Inr page \<longrightarrow>
                         (\<forall>e. (soup_lxml w page = Inl e \<and> (\<forall>m. e \<noteq> FeatureNotFound m))
                               \<or> ((\<exists>m. soup_lxml w page = Inl (FeatureNotFound m))
                                   \<and> soup_html_parser w page = Inl e) \<longrightarrow>
                            deps = [])
                       \<and> (\<forall>soup. soup_lxml w page = Inr soup
                               \<or> ((\<exists>m. soup_lxml w page = Inl (FeatureNotFound m))
                                   \<and> soup_html_parser w page = Inr soup) \<longrightarrow>
                            (\<forall>e. required_item_hrefs w soup = Inl e \<longrightarrow> deps = [])
                          \<and> (required_item_hrefs w soup = Inr None \<longrightarrow> deps = [])
                          \<and> (\<forall>hrefs. required_item_hrefs w soup = Inr (Some hrefs) \<longrightarrow>
                                deps = List.map_filter href_id hrefs))))"
  proof (intro allI impI)
    fix d
    assume "(if truthy (dict_get kvs ''description'' (JStr []))
                then html_unescape w (dict_get kvs ''description'' (JStr [])) = Inr d
                else d = dict_get kvs ''description'' (JStr []))"
    with taken have "fetch_mod_info w mid
        = Inr [(''title'', dict_get kvs ''title'' (JStr ''Unknown'')),
               (''app_id'', dict_get kvs ''consumer_app_id'' JNull),
               (''preview_url'', dict_get kvs ''preview_url'' (JStr [])),
               (''file_size'', dict_get kvs ''file_size'' (JNum 0)),
               (''description'', d),
               (''dependencies'', JArr (map JStr (scrape_dependencies w mid)))]" by blast
    from conjI[OF this scrape_policy[of w mid]]
    show "\<exists>deps. fetch_mod_info w mid
                   = Inr [(''title'', dict_get kvs ''title'' (JStr ''Unknown'')),
                     (''app_id'', dict_get kvs ''consumer_app_id'' JNull),
                     (''preview_url'', dict_get kvs ''preview_url'' (JStr [])),
                     (''file_size'', dict_get kvs ''file_size'' (JNum 0)),
                     (''description'', d),
                     (''dependencies'', JArr (map JStr deps))]
                 \<and> (\<forall>e. get_page w (workshop_url mid) = Inl e \<longrightarrow> deps = [])
                   \<and> (\<forall>page. get_page w (workshop_url mid) = Inr page \<longrightarrow>
                         (\<forall>e. (soup_lxml w page = Inl e \<and> (\<forall>m. e \<noteq> FeatureNotFound m))
                               \<or> ((\<exists>m. soup_lxml w page = Inl (FeatureNotFound m))
                                   \<and> soup_html_parser w page = Inl e) \<longrightarrow>
                            deps = [])
                       \<and> (\<forall>soup. soup_lxml w page = Inr soup
                               \<or> ((\<exists>m. soup_lxml w page = Inl (FeatureNotFound m))
                                   \<and> soup_html_parser w page = Inr soup) \<longrightarrow>
                            (\<forall>e. required_item_hrefs w soup = Inl e \<longrightarrow> deps = [])
                          \<and> (required_item_hrefs w soup = Inr None \<longrightarrow> deps = [])
                          \<and> (\<forall>hrefs. required_item_hrefs w soup = Inr (Some hrefs) \<longrightarrow>
                                deps = List.map_filter href_id hrefs)))"
      by (rule exI[of _ "scrape_dependencies w mid"])
  qed
  with raised show "(\<forall>e. truthy (dict_get kvs ''description'' (JStr [])) \<and> html_unescape w (dict_get kvs ''description'' (JStr [])) = Inl e \<longrightarrow>
          (\<exists>msg. fetch_mod_info w mid = Inr [(''title'', JStr (''Mod '' @ mid)), (''error'', JStr msg)]))
      \<and> (\<forall>d. (if truthy (dict_get kvs ''description'' (JStr []))
              then html_unescape w (dict_get kvs ''description'' (JStr [])) = Inr d
              else d = dict_get kvs ''description'' (JStr [])) \<longrightarrow>
          (\<exists>deps. fetch_mod_info w mid
                 = Inr [(''title'', dict_get kvs ''title'' (JStr ''Unknown'')),
                   (''app_id'', dict_get kvs ''consumer_app_id'' JNull),
                   (''preview_url'', dict_get kvs ''preview_url'' (JStr [])),
                   (''file_size'', dict_get kvs ''file_size'' (JNum 0)),
                   (''description'', d),
                   (''dependencies'', JArr (map JStr deps))]
               \<and> (\<forall>e. get_page w (workshop_url mid) = Inl e \<longrightarrow> deps = [])
                 \<and> (\<forall>page. get_page w (workshop_url mid) = Inr page \<longrightarrow>
                       (\<forall>e. (soup_lxml w page = Inl e \<and> (\<forall>m. e \<noteq> FeatureNotFound m))
                             \<or> ((\<exists>m. soup_lxml w page = Inl (FeatureNotFound m))
                                 \<and> soup_html_parser w page = Inl e) \<longrightarrow>
                          deps = [])
                     \<and> (\<forall>soup. soup_lxml w page = Inr soup
                             \<or> ((\<exists>m. soup_lxml w page = Inl (FeatureNotFound m))
                                 \<and> soup_html_parser w page = Inr soup) \<longrightarrow>
                          (\<forall>e. required_item_hrefs w soup = Inl e \<longrightarrow> deps = [])
                        \<and> (required_item_hrefs w soup = Inr None \<longrightarrow> deps = [])
                        \<and> (\<forall>hrefs. required_item_hrefs w soup = Inr (Some hrefs) \<longrightarrow>
                              deps = List.map_filter href_id hrefs)))))" by (rule conjI)
qed

lemma fetch_network_policy:
  "\<forall>msg. post_details w mid = Inl (RequestException msg) \<longrightarrow>
         fetch_mod_info w mid
           = Inr [(''title'', JStr (''Mod '' @ mid)),
                  (''error'', JStr (''Network error: '' @ msg))]"
  using fetch_network_error[of w mid] by (simp add: error_info_def)

lemma fetch_raised_policy:
  "\<forall>e. post_details w mid = Inl e \<longrightarrow>
         (\<exists>msg. fetch_mod_info w mid = Inr [(''title'', JStr (''Mod '' @ mid)), (''error'', JStr msg)])"
  using fetch_post_raised[of w mid] by (simp add: error_info_def)

lemma fetch_malformed_policy:
  "\<forall>data. post_details w mid = Inr data \<and> response_details data = None \<longrightarrow>
         (\<exists>msg. fetch_mod_info w mid = Inr [(''title'', JStr (''Mod '' @ mid)), (''error'', JStr msg)])"
  using fetch_malformed[of w mid] by (simp add: error_info_def)

lemma fetch_refused_policy:
  "\<forall>data kvs. post_details w mid = Inr data \<and> response_details data = Some kvs
          \<and> map_of kvs ''result'' \<noteq> Some (JNum 1)
          \<and> map_of kvs ''result'' \<noteq> Some (JBool True) \<longrightarrow>
         fetch_mod_info w mid
           = Inr [(''title'', JStr (''Mod '' @ mid)),
                  (''error'', JStr (''API result not OK (result code: ''
                                      @ py_str w (dict_get kvs ''result'' JNull) @ '')''))]"
  using fetch_refused[of w mid] by (simp add: error_info_def)

text \<open>
  Claim C6, from the answers of the network alone. \<open>fetch_mod_info\<close> always returns a
  dict, never an exception.
  \<^item> The API tier. When the request to the API raises, the dict is exactly a \<open>title\<close> of
    the form \<open>Mod <id>\<close> and an \<open>error\<close>; for a \<open>RequestException\<close> the error is
    \<open>Network error:\<close> and its text. When the answer is malformed (not a dict whose
    \<open>response\<close> is a dict whose \<open>publishedfiledetails\<close> is a list that starts with a
    dict), the dict is that title and an \<open>error\<close>. When the details have a \<open>result\<close>
    other than 1 (\<open>True\<close> equals 1 in Python), or none, the dict is that title and the
    error \<open>API result not OK\<close> with the code.
  \<^item> The accepted answer. When the details have the result 1, the dict holds the six
    fields taken from the details, with the defaults of the code, and has no \<open>error\<close>;
    only \<open>html.unescape\<close> raising on the description turns it into the title and an
    \<open>error\<close>.
  \<^item> The scrape tier. In that dict, \<open>dependencies\<close> is the empty list when the page
    request raises, when the parser raises (\<open>lxml\<close> with an exception other than
    \<open>FeatureNotFound\<close>, or \<open>html.parser\<close> after it), when reading the links raises and
    when the page has no \<open>RequiredItems\<close>; otherwise it holds the ids found in the links.
\<close>

theorem fetch_mod_info_failure_policy:
  "(\<exists>r. fetch_mod_info w mid = Inr r)
   \<and> (\<forall>msg. post_details w mid = Inl (RequestException msg) \<longrightarrow>
         fetch_mod_info w mid
           = Inr [(''title'', JStr (''Mod '' @ mid)),
                  (''error'', JStr (''Network error: '' @ msg))])
   \<and> (\<forall>e. post_details w mid = Inl e \<longrightarrow>
         (\<exists>msg. fetch_mod_info w mid = Inr [(''title'', JStr (''Mod '' @ mid)), (''error'', JStr msg)]))
   \<and> (\<forall>data. post_details w mid = Inr data \<and> response_details data = None \<longrightarrow>
         (\<exists>msg. fetch_mod_info w mid = Inr [(''title'', JStr (''Mod '' @ mid)), (''error'', JStr msg)]))
   \<and> (\<forall>data kvs. post_details w mid = Inr data \<and> response_details data = Some kvs
          \<and> map_of kvs ''result'' \<noteq> Some (JNum 1)
          \<and> map_of kvs ''result'' \<noteq> Some (JBool True) \<longrightarrow>
         fetch_mod_info w mid
           = Inr [(''title'', JStr (''Mod '' @ mid)),
                  (''error'', JStr (''API result not OK (result code: ''
                                      @ py_str w (dict_get kvs ''result'' JNull) @ '')''))])
   \<and> (\<forall>data kvs. post_details w mid = Inr data \<and> response_details data = Some kvs
          \<and> (map_of kvs ''result'' = Some (JNum 1) \<or> map_of kvs ''result'' = Some (JBool True)) \<longrightarrow>
       (\<forall>e. truthy (dict_get kvs ''description'' (JStr [])) \<and> html_unescape w (dict_get kvs ''description'' (JStr [])) = Inl e \<longrightarrow>
           (\<exists>msg. fetch_mod_info w mid = Inr [(''title'', JStr (''Mod '' @ mid)), (''error'', JStr msg)]))
       \<and> (\<forall>d. (if truthy (dict_get kvs ''description'' (JStr []))
               then html_unescape w (dict_get kvs ''description'' (JStr [])) = Inr d
               else d = dict_get kvs ''description'' (JStr [])) \<longrightarrow>
           (\<exists>deps. fetch_mod_info w mid
                  = Inr [(''title'', dict_get kvs ''title'' (JStr ''Unknown'')),
                    (''app_id'', dict_get kvs ''consumer_app_id'' JNull),
                    (''preview_url'', dict_get kvs ''preview_url'' (JStr [])),
                    (''file_size'', dict_get kvs ''file_size'' (JNum 0)),
                    (''description'', d),
                    (''dependencies'', JArr (map JStr deps))]
                \<and> (\<forall>e. get_page w (workshop_url mid) = Inl e \<longrightarrow> deps = [])
                  \<and> (\<forall>page. get_page w (workshop_url mid) = Inr page \<longrightarrow>
                        (\<forall>e. (soup_lxml w page = Inl e \<and> (\<forall>m. e \<noteq> FeatureNotFound m))
                              \<or> ((\<exists>m. soup_lxml w page = Inl (FeatureNotFound m))
                                  \<and> soup_html_parser w page = Inl e) \<longrightarrow>
                           deps = [])
                      \<and> (\<forall>soup. soup_lxml w page = Inr soup
                              \<or> ((\<exists>m. soup_lxml w page = Inl (FeatureNotFound m))
                                  \<and> soup_html_parser w page = Inr soup) \<longrightarrow>
                           (\<forall>e. required_item_hrefs w soup = Inl e \<longrightarrow> deps = [])
                         \<and> (required_item_hrefs w soup = Inr None \<longrightarrow> deps = [])
                         \<and> (\<forall>hrefs. required_item_hrefs w soup = Inr (Some hrefs) \<longrightarrow>
                               deps = List.map_filter href_id hrefs))))))"
  by (intro conjI)
     (rule fetch_mod_info_returns fetch_network_policy fetch_raised_policy
        fetch_malformed_policy fetch_refused_policy fetch_accepted_policy)+

lemma example_web_answers:
  "post_details example_web_down ''123'' = Inl (RequestException ''Connection refused'')"
  "post_details example_web_malformed ''123'' = Inr (JArr [])"
  "post_details example_web_refused ''123''
     = Inr (JObj [(''response'', JObj [(''publishedfiledetails'',
                    JArr [JObj [(''result'', JNum 9)]])])])"
  "post_details example_web ''123''
     = Inr (JObj [(''response'', JObj [(''publishedfiledetails'',
                    JArr [JObj [(''result'', JNum 1), (''title'', JStr ''Some mod''),
                                (''consumer_app_id'', JNum 294100)]])])])"
  "post_details example_web_items ''123''
     = Inr (JObj [(''response'', JObj [(''publishedfiledetails'',
                    JArr [JObj [(''result'', JNum 1),
                                (''description'', JStr ''A &amp; B'')]])])])"
  "py_str example_web_refused (JNum 9) = ''?''"
  "get_page example_web (workshop_url ''123'') = Inl (RequestException ''Read timed out'')"
  "get_page example_web_items (workshop_url ''123'') = Inr ''<html>''"
  "soup_lxml example_web_items ''<html>'' = Inr ()"
  "required_item_hrefs example_web_items ()
     = Inr (Some [Some ''https://steamcommunity.com/workshop/filedetails/?id=77'',
                  None, Some ''https://example.org/'', Some ''?l=en&id=8''])"
  "html_unescape example_web_items (JStr ''A &amp; B'') = Inr (JStr ''A & B'')"
  by (simp_all add: example_web_def example_web_down_def example_web_malformed_def
      example_web_refused_def example_web_items_def)

lemma example_response_details:
  "response_details (JArr []) = None"
  "response_details (JObj [(''response'', JObj [(''publishedfiledetails'',
                       JArr [JObj [(''result'', JNum 9)]])])])
     = Some [(''result'', JNum 9)]"
  "response_details (JObj [(''response'', JObj [(''publishedfiledetails'',
                       JArr [JObj [(''result'', JNum 1), (''title'', JStr ''Some mod''),
                                   (''consumer_app_id'', JNum 294100)]])])])
     = Some [(''result'', JNum 1), (''title'', JStr ''Some mod''),
             (''consumer_app_id'', JNum 294100)]"
  "response_details (JObj [(''response'', JObj [(''publishedfiledetails'',
                       JArr [JObj [(''result'', JNum 1),
                                   (''description'', JStr ''A &amp; B'')]])])])
     = Some [(''result'', JNum 1), (''description'', JStr ''A &amp; B'')]"
  by (simp_all add: response_details_def)

lemma example_hrefs:
  "href_id (Some ''https://steamcommunity.com/workshop/filedetails/?id=77'') = Some ''77''"
  "href_id None = None"
  "href_id (Some ''https://example.org/'') = None"
  "href_id (Some ''?l=en&id=8'') = Some ''8''"
  by (simp_all add: href_id_def match_digits_def is_digit_def)

theorem fetch_mod_info_failure_policy_witness:
  "(post_details example_web_down ''123'' = Inl (RequestException ''Connection refused'')
    \<and> fetch_mod_info example_web_down ''123''
        = Inr [(''title'', JStr ''Mod 123''),
               (''error'', JStr ''Network error: Connection refused'')])
   \<and> (post_details example_web_malformed ''123'' = Inr (JArr [])
    \<and> response_details (JArr []) = None
    \<and> (\<exists>msg. fetch_mod_info example_web_malformed ''123''
                = Inr [(''title'', JStr ''Mod 123''), (''error'', JStr msg)]))
   \<and> (response_details (JObj [(''response'', JObj [(''publishedfiledetails'',
                          JArr [JObj [(''result'', JNum 9)]])])])
        = Some [(''result'', JNum 9)]
    \<and> fetch_mod_info example_web_refused ''123''
        = Inr [(''title'', JStr ''Mod 123''),
               (''error'', JStr ''API result not OK (result code: ?)'')])
   \<and> (get_page example_web (workshop_url ''123'') = Inl (RequestException ''Read timed out'')
    \<and> fetch_mod_info example_web ''123''
        = Inr [(''title'', JStr ''Some mod''), (''app_id'', JNum 294100),
               (''preview_url'', JStr []), (''file_size'', JNum 0),
               (''description'', JStr []), (''dependencies'', JArr [])])
   \<and> (get_page example_web_items (workshop_url ''123'') = Inr ''<html>''
    \<and> fetch_mod_info example_web_items ''123''
        = Inr [(''title'', JStr ''Unknown''), (''app_id'', JNull),
               (''preview_url'', JStr []), (''file_size'', JNum 0),
               (''description'', JStr ''A & B''),
               (''dependencies'', JArr [JStr ''77'', JStr ''8''])])"
proof -
  have down: "fetch_mod_info example_web_down ''123''
        = Inr [(''title'', JStr ''Mod 123''),
               (''error'', JStr ''Network error: Connection refused'')]"
    using fetch_mod_info_failure_policy [of example_web_down "''123''"]
    by (simp add: example_web_answers)
  have malformed: "\<exists>msg. fetch_mod_info example_web_malformed ''123''
                = Inr [(''title'', JStr ''Mod 123''), (''error'', JStr msg)]"
    using fetch_mod_info_failure_policy [of example_web_malformed "''123''"]
    by (simp add: example_web_answers example_response_details)
  have refused: "fetch_mod_info example_web_refused ''123''
        = Inr [(''title'', JStr ''Mod 123''),
               (''error'', JStr ''API result not OK (result code: ?)'')]"
    using fetch_mod_info_failure_policy [of example_web_refused "''123''"]
    by (simp add: example_web_answers example_response_details dict_get_def)
  have timed_out: "fetch_mod_info example_web ''123''
        = Inr [(''title'', JStr ''Some mod''), (''app_id'', JNum 294100),
               (''preview_url'', JStr []), (''file_size'', JNum 0),
               (''description'', JStr []), (''dependencies'', JArr [])]"
    using fetch_mod_info_failure_policy [of example_web "''123''"]
    by (simp add: example_web_answers example_response_details dict_get_def)
  have items: "fetch_mod_info example_web_items ''123''
        = Inr [(''title'', JStr ''Unknown''), (''app_id'', JNull),
               (''preview_url'', JStr []), (''file_size'', JNum 0),
               (''description'', JStr ''A & B''),
               (''dependencies'', JArr [JStr ''77'', JStr ''8''])]"
    using fetch_mod_info_failure_policy [of example_web_items "''123''"]
    by (simp add: example_web_answers example_response_details dict_get_def example_hrefs)
  from down malformed refused timed_out items show ?thesis
    by (simp add: example_web_answers example_response_details)
qed

subsection \<open>The read accessors\<close>

lemma get_all_mods_fresh_list:
  assumes wf: "objects h (next_free h) = None" and g: "get_all_mods h mgr = Some (r, h')"
  shows "r \<noteq> mods_ref mgr"
    and "objects h' r = objects h (mods_ref mgr)"
    and "repo_records h' mgr = repo_records h mgr"
    and "repo_records (mutate_list r f h') mgr = repo_records h mgr"
proof -
  from g obtain refs where l: "objects h (mods_ref mgr) = Some (ListObj refs)"
    and r: "r = next_free h"
    and h': "h' = h\<lparr>objects := (objects h)(next_free h \<mapsto> ListObj refs),
                    next_free := Suc (next_free h)\<rparr>"
    by (auto simp: get_all_mods_def split: option.splits py_object.splits)
  show ne: "r \<noteq> mods_ref mgr" using wf r l by auto
  show "objects h' r = objects h (mods_ref mgr)" using l r h' by simp
  have d: "deref_record h' = deref_record h"
    using wf by (auto simp: deref_record_def h' fun_eq_iff split: option.splits py_object.splits)
  show "repo_records h' mgr = repo_records h mgr"
    using ne l r unfolding repo_records_def d by (simp add: h')
  have d2: "deref_record (mutate_list r f h') = deref_record h"
    using wf by (auto simp: deref_record_def mutate_list_def h' r fun_eq_iff
        split: option.splits py_object.splits)
  have "objects (mutate_list r f h') (mods_ref mgr) = objects h (mods_ref mgr)"
    using ne r by (auto simp: mutate_list_def h' split: option.splits py_object.splits)
  then show "repo_records (mutate_list r f h') mgr = repo_records h mgr"
    unfolding repo_records_def d2 by simp
qed

lemma get_mod_by_id_shared:
  assumes g: "get_mod_by_id h mgr i = Some a"
    and l: "objects h (mods_ref mgr) = Some (ListObj refs)"
  shows "\<exists>k m. k < length refs \<and> refs ! k = a \<and> deref_record h a = Some m \<and> mod_id m = i
           \<and> (\<forall>f. repo_records (mutate_record a f h) mgr ! k = Some (f m))"
proof -
  from g l have "List.find (\<lambda>a. case deref_record h a of Some m \<Rightarrow> mod_id m = i | None \<Rightarrow> False)
                   refs = Some a"
    by (simp add: get_mod_by_id_def)
  then obtain k where k: "k < length refs" "refs ! k = a"
    and p: "(case deref_record h a of Some m \<Rightarrow> mod_id m = i | None \<Rightarrow> False)"
    by (auto simp: find_Some_iff)
  from p obtain m where m: "deref_record h a = Some m" "mod_id m = i"
    by (auto split: option.splits)
  then have obj: "objects h a = Some (DictObj m)"
    by (auto simp: deref_record_def split: option.splits py_object.splits)
  with l have ne: "a \<noteq> mods_ref mgr" by auto
  have "repo_records (mutate_record a f h) mgr ! k = Some (f m)" for f
    using obj l ne k
    by (simp add: repo_records_def mutate_record_def deref_record_def)
  with k m show ?thesis by blast
qed

lemmas store_eval = example_store_def example_manager_def get_all_mods_def get_mod_by_id_def
  repo_records_def deref_record_def mutate_record_def mutate_list_def

lemma example_store_reads:
  "get_mod_by_id example_store example_manager ''7'' = Some 1"
  "objects example_store (mods_ref example_manager) = Some (ListObj [1])"
  "objects example_store (next_free example_store) = None"
  "get_all_mods example_store example_manager
     = Some (2, example_store\<lparr>objects := (objects example_store)(2 \<mapsto> ListObj [1]),
                              next_free := 3\<rparr>)"
  by (simp_all add: store_eval placeholder_def)

text \<open>
  Claim C7, as the code has it. \<open>get_all_mods\<close> returns a new list object: whatever
  the caller does to that list, the repository holds the same records as before. The
  records are not copied: the reference \<open>get_mod_by_id\<close> returns is an entry of the
  repository's own list (as are the entries of the list \<open>get_all_mods\<close> returns), and
  a change the caller makes to the record behind it is a change of the record stored in
  the repository. (The address the interpreter allocates next is unused.)
\<close>

theorem reads_share_records:
  "(\<forall>r h'. objects h (next_free h) = None \<and> get_all_mods h mgr = Some (r, h') \<longrightarrow>
       r \<noteq> mods_ref mgr
       \<and> objects h' r = objects h (mods_ref mgr)
       \<and> repo_records h' mgr = repo_records h mgr
       \<and> (\<forall>f. repo_records (mutate_list r f h') mgr = repo_records h mgr))
   \<and> (\<forall>a refs. get_mod_by_id h mgr i = Some a
          \<and> objects h (mods_ref mgr) = Some (ListObj refs) \<longrightarrow>
       (\<exists>k m. k < length refs \<and> refs ! k = a \<and> deref_record h a = Some m \<and> mod_id m = i
           \<and> (\<forall>f. repo_records (mutate_record a f h) mgr ! k = Some (f m))))"
proof (intro conjI allI impI)
  fix r h' assume a: "objects h (next_free h) = None \<and> get_all_mods h mgr = Some (r, h')"
  then have wf: "objects h (next_free h) = None" and g: "get_all_mods h mgr = Some (r, h')"
    by simp_all
  show "r \<noteq> mods_ref mgr" by (rule get_all_mods_fresh_list(1)[OF wf g])
  show "objects h' r = objects h (mods_ref mgr)" by (rule get_all_mods_fresh_list(2)[OF wf g])
  show "repo_records h' mgr = repo_records h mgr" by (rule get_all_mods_fresh_list(3)[OF wf g])
  show "repo_records (mutate_list r f h') mgr = repo_records h mgr" for f
    by (rule get_all_mods_fresh_list(4)[OF wf g])
next
  fix a refs
  assume "get_mod_by_id h mgr i = Some a \<and> objects h (mods_ref mgr) = Some (ListObj refs)"
  then show "\<exists>k m. k < length refs \<and> refs ! k = a \<and> deref_record h a = Some m \<and> mod_id m = i
           \<and> (\<forall>f. repo_records (mutate_record a f h) mgr ! k = Some (f m))"
    using get_mod_by_id_shared by blast
qed

theorem reads_share_records_witness:
  "objects example_store (next_free example_store) = None
   \<and> get_all_mods example_store example_manager
       = Some (2, example_store\<lparr>objects := (objects example_store)(2 \<mapsto> ListObj [1]),
                                next_free := 3\<rparr>)
   \<and> repo_records (mutate_list 2 (\<lambda>refs. [])
          (example_store\<lparr>objects := (objects example_store)(2 \<mapsto> ListObj [1]),
                          next_free := 3\<rparr>)) example_manager
       = repo_records example_store example_manager
   \<and> get_mod_by_id example_store example_manager ''7'' = Some 1
   \<and> objects example_store (mods_ref example_manager) = Some (ListObj [1])
   \<and> (\<exists>k m. k < length [1::nat] \<and> [1::nat] ! k = 1 \<and> deref_record example_store 1 = Some m
         \<and> mod_id m = ''7''
         \<and> repo_records (mutate_record 1 (\<lambda>m. m\<lparr>is_dependency := False\<rparr>) example_store)
              example_manager ! k = Some (m\<lparr>is_dependency := False\<rparr>))"
  using reads_share_records [of example_store example_manager "''7''"] example_store_reads
  by blast


text \<open>
  Claim C7 as stated fails: a caller can change a stored record without an accessor
  method. In \<open>example_store\<close>, clearing \<open>is_dependency\<close> on the record that
  \<open>get_mod_by_id\<close> returns, or on the entry of the list that \<open>get_all_mods\<close> returns,
  clears it in the repository.
\<close>

theorem returned_record_is_the_stored_record:
  "get_mod_by_id example_store example_manager ''7'' = Some 1
   \<and> repo_records example_store example_manager = [Some (placeholder ''7'' True)]
   \<and> repo_records (mutate_record 1 (\<lambda>m. m\<lparr>is_dependency := False\<rparr>) example_store)
        example_manager = [Some (placeholder ''7'' True\<lparr>is_dependency := False\<rparr>)]
   \<and> map_option fst (get_all_mods example_store example_manager) = Some 2
   \<and> objects (snd (the (get_all_mods example_store example_manager))) 2 = Some (ListObj [1])
   \<and> repo_records (mutate_record 1 (\<lambda>m. m\<lparr>is_dependency := False\<rparr>)
          (snd (the (get_all_mods example_store example_manager)))) example_manager
       = [Some (placeholder ''7'' True\<lparr>is_dependency := False\<rparr>)]"
  by (simp add: store_eval placeholder_def)

end
